theory Spec2Isabelle
  imports Complex_Main "HOL-Library.AList" "HOL-Library.Product_Lexorder" "HOL-Library.Log_Nat"
begin

section \<open>Data model\<close>

subsection \<open>Python values used by the pipeline\<close>

text \<open>
  Exceptions of the Python source are values: every function of the source that can raise
  returns a sum whose left side is the exception.
\<close>

datatype py_error = KeyError string | ValueError string | TypeError string

text \<open>
  An \<open>xml.etree.ElementTree.Element\<close>: tag, attribute dictionary (in document order, keys
  distinct), text and children.
\<close>

datatype xml = Element (tag: string) (attrib: "(string \<times> string) list")
  (etext: "string option") (children: "xml list")

text \<open>\<open>Element.iter('*')\<close>: the element itself, then its descendants in document order.\<close>

fun iter :: "xml \<Rightarrow> xml list" where
  "iter (Element t a x cs) = Element t a x cs # concat (map iter cs)"

text \<open>\<open>models.FlightType\<close>; \<open>name\<close> is the member name used in rows and file names.\<close>

datatype FlightType =
  FlightType_A | FlightType_B | FlightType_C | FlightType_D | FlightType_E | FlightType_F
| FlightType_G | FlightType_H | FlightType_J | FlightType_K | FlightType_L | FlightType_M
| FlightType_O | FlightType_P | FlightType_Q | FlightType_R | FlightType_S | FlightType_T
| FlightType_U | FlightType_V | FlightType_W | FlightType_X

fun flight_type_name :: "FlightType \<Rightarrow> string" where
  "flight_type_name FlightType_A = ''A''"
| "flight_type_name FlightType_B = ''B''"
| "flight_type_name FlightType_C = ''C''"
| "flight_type_name FlightType_D = ''D''"
| "flight_type_name FlightType_E = ''E''"
| "flight_type_name FlightType_F = ''F''"
| "flight_type_name FlightType_G = ''G''"
| "flight_type_name FlightType_H = ''H''"
| "flight_type_name FlightType_J = ''J''"
| "flight_type_name FlightType_K = ''K''"
| "flight_type_name FlightType_L = ''L''"
| "flight_type_name FlightType_M = ''M''"
| "flight_type_name FlightType_O = ''O''"
| "flight_type_name FlightType_P = ''P''"
| "flight_type_name FlightType_Q = ''Q''"
| "flight_type_name FlightType_R = ''R''"
| "flight_type_name FlightType_S = ''S''"
| "flight_type_name FlightType_T = ''T''"
| "flight_type_name FlightType_U = ''U''"
| "flight_type_name FlightType_V = ''V''"
| "flight_type_name FlightType_W = ''W''"
| "flight_type_name FlightType_X = ''X''"

datatype QueryType = ORIGIN | DESTINATION

fun query_type_name :: "QueryType \<Rightarrow> string" where
  "query_type_name ORIGIN = ''ORIGIN''"
| "query_type_name DESTINATION = ''DESTINATION''"

text \<open>
  A reading of \<open>datetime.datetime.now()\<close>, in microseconds since the epoch. The two time
  fields of the accumulator hold either the attribute string of the leg element or such a
  reading, or \<open>None\<close>.
\<close>

type_synonym datetime = int

datatype dt_value = DtStr string | DtNow datetime

text \<open>The dataclass \<open>FlightDetails\<close>; a field that is \<open>None\<close> in Python is \<open>None\<close> here.\<close>

record FlightDetails =
  flight_type :: FlightType
  s_id :: int
  f_id :: "string option"
  carrier :: "string option"
  origin :: "string option"
  destination :: "string option"
  depart_dt :: "dt_value option"
  arrive_dt :: "dt_value option"
  aircraft :: "string option"
  width :: "string option"
  query_type :: QueryType
  batch_num :: int

text \<open>One row of the leg table built by \<open>create_flight_row\<close>, column by column.\<close>

record flight_row =
  Flight_Type :: string
  Origin :: "string option"
  Destination :: "string option"
  Flight_No :: "string option"
  Airline_Code :: "string option"
  Aircraft :: "string option"
  Width :: "string option"
  Solution_ID :: int
  Departure_Time :: "dt_value option"
  Arrival_Time :: "dt_value option"
  Query_Type :: string
  Batch_Number :: int

text \<open>
  A data frame of legs: its rows in order, each with its index label. What
  \<open>create_flight_row\<close> returns is such a frame with one row.
\<close>

type_synonym leg_frame = "(int \<times> flight_row) list"

subsection \<open>Reference accumulators (\<open>auxiliary.py\<close>)\<close>

type_synonym ref_dict = "(string \<times> string list) list"

definition carrier_dict :: ref_dict where
  "carrier_dict = [(''code'', []), (''name'', []), (''shortName'', [])]"

definition city_dict :: ref_dict where
  "city_dict = [(''code'', []), (''country'', []), (''name'', [])]"

definition airport_dict :: ref_dict where
  "airport_dict = [(''city'', []), (''code'', []), (''latitude'', []), (''longitude'', []),
     (''name'', [])]"

definition aircraft_dict :: ref_dict where
  "aircraft_dict = [(''code'', []), (''name'', []), (''width'', [])]"

text \<open>The module-level table \<open>dictionaries\<close>, keyed by element tag, at start-up.\<close>

definition dictionaries_init :: "(string \<times> ref_dict) list" where
  "dictionaries_init = [(''carrier'', carrier_dict), (''city'', city_dict),
     (''airport'', airport_dict), (''aircraft'', aircraft_dict)]"

definition append_to_dict_lists :: "ref_dict \<Rightarrow> (string \<times> string) list \<Rightarrow> ref_dict" where
  "append_to_dict_lists target_dict row_dict =
     fold (\<lambda>(key, v) t. if key \<in> fst ` set t then AList.map_entry key (\<lambda>vs. vs @ [v]) t else t)
       row_dict target_dict"

definition process_dict_updates :: "(string \<times> ref_dict) list \<Rightarrow> xml \<Rightarrow> (string \<times> ref_dict) list" where
  "process_dict_updates dicts child =
     (if tag child \<in> fst ` set dicts
      then AList.map_entry (tag child) (\<lambda>d. append_to_dict_lists d (attrib child)) dicts
      else dicts)"

section \<open>Result stream parser\<close>

subsection \<open>Handlers\<close>

definition update_flight_info :: "xml \<Rightarrow> FlightDetails \<Rightarrow> py_error + FlightDetails" where
  "update_flight_info child st =
     (case map_of (attrib child) ''carrier'' of
        None \<Rightarrow> Inl (KeyError ''carrier'')
      | Some c \<Rightarrow>
         (case map_of (attrib child) ''number'' of
            None \<Rightarrow> Inl (KeyError ''number'')
          | Some n \<Rightarrow> Inr (st\<lparr>f_id := Some (c @ n), carrier := Some c\<rparr>)))"

text \<open>
  \<open>update_leg_info\<close>: the four assignments run in order inside \<open>try\<close>; the first missing
  attribute raises \<open>KeyError\<close>, and the handler then overwrites all four fields, with one
  reading \<open>now\<close> of the clock for both time fields.
\<close>

definition leg_defaults :: "datetime \<Rightarrow> FlightDetails \<Rightarrow> FlightDetails" where
  "leg_defaults now st =
     st\<lparr>origin := Some '''', destination := Some '''',
        depart_dt := Some (DtNow now), arrive_dt := Some (DtNow now)\<rparr>"

definition update_leg_info :: "datetime \<Rightarrow> xml \<Rightarrow> FlightDetails \<Rightarrow> FlightDetails" where
  "update_leg_info now child st =
     (case map_of (attrib child) ''origin'' of
        None \<Rightarrow> leg_defaults now st
      | Some orig \<Rightarrow>
     (case map_of (attrib child) ''destination'' of
        None \<Rightarrow> leg_defaults now (st\<lparr>origin := Some orig\<rparr>)
      | Some dest \<Rightarrow>
     (case map_of (attrib child) ''departure'' of
        None \<Rightarrow> leg_defaults now (st\<lparr>origin := Some orig, destination := Some dest\<rparr>)
      | Some dep \<Rightarrow>
     (case map_of (attrib child) ''arrival'' of
        None \<Rightarrow> leg_defaults now
                 (st\<lparr>origin := Some orig, destination := Some dest, depart_dt := Some (DtStr dep)\<rparr>)
      | Some arr \<Rightarrow>
          st\<lparr>origin := Some orig, destination := Some dest,
             depart_dt := Some (DtStr dep), arrive_dt := Some (DtStr arr)\<rparr>))))"

text \<open>
  \<open>update_aircraft_info\<close>: \<open>name\<close> is read and stored before \<open>width\<close> is read; either
  \<open>KeyError\<close> leaves the handler (and the parser) at once.
\<close>

definition update_aircraft_info :: "xml \<Rightarrow> FlightDetails \<Rightarrow> py_error + FlightDetails" where
  "update_aircraft_info child st =
     (case map_of (attrib child) ''name'' of
        None \<Rightarrow> Inl (KeyError ''name'')
      | Some n \<Rightarrow>
         (case map_of (attrib child) ''width'' of
            None \<Rightarrow> Inl (KeyError ''width'')
          | Some w \<Rightarrow> Inr (st\<lparr>aircraft := Some n, width := Some w\<rparr>)))"

definition update_flight_details :: "datetime \<Rightarrow> xml \<Rightarrow> FlightDetails \<Rightarrow> py_error + FlightDetails" where
  "update_flight_details now child st =
     (if tag child = ''flight'' then update_flight_info child st
      else if tag child = ''leg'' then Inr (update_leg_info now child st)
      else if tag child = ''aircraft'' then update_aircraft_info child st
      else Inr st)"

definition create_flight_row :: "FlightDetails \<Rightarrow> int \<Rightarrow> leg_frame" where
  "create_flight_row st row =
     [(row, \<lparr>Flight_Type = flight_type_name (flight_type st),
            Origin = origin st,
            Destination = destination st,
            Flight_No = f_id st,
            Airline_Code = carrier st,
            Aircraft = aircraft st,
            Width = width st,
            Solution_ID = s_id st,
            Departure_Time = depart_dt st,
            Arrival_Time = arrive_dt st,
            Query_Type = query_type_name (query_type st),
            Batch_Number = batch_num st\<rparr>)]"

text \<open>
  Python truth values of the six required fields: an \<open>Enum\<close> member is always true, an
  \<open>int\<close> is true unless it is \<open>0\<close>, a string is true unless it is empty, \<open>None\<close> is false.
\<close>

definition truthy_enum :: "FlightType \<Rightarrow> bool" where
  "truthy_enum e = True"

definition truthy_int :: "int \<Rightarrow> bool" where
  "truthy_int n = (n \<noteq> 0)"

fun truthy_str :: "string option \<Rightarrow> bool" where
  "truthy_str None = False"
| "truthy_str (Some s) = (s \<noteq> [])"

definition validate_flight_details :: "FlightDetails \<Rightarrow> bool" where
  "validate_flight_details fd =
     (truthy_enum (flight_type fd) \<and> truthy_str (origin fd) \<and> truthy_str (destination fd) \<and>
      truthy_str (f_id fd) \<and> truthy_str (carrier fd) \<and> truthy_int (s_id fd))"

definition handle_create_df_row :: "xml \<Rightarrow> FlightDetails \<Rightarrow> int \<Rightarrow> py_error + leg_frame option" where
  "handle_create_df_row child st row =
     (if tag child = ''aircraft''
      then (if validate_flight_details st then Inr (Some (create_flight_row st row))
            else Inl (ValueError ''Flight details are not valid''))
      else Inr None)"

subsection \<open>The loop of \<open>parse_results\<close>\<close>

text \<open>
  The local variables of \<open>parse_results\<close>, the module-level \<open>dictionaries\<close> it appends to,
  and the error lines it logs.
\<close>

record parse_vars =
  dfs :: "leg_frame list"
  sol_id :: int
  row :: int
  started_yet :: bool
  state :: "FlightDetails option"
  dictionaries :: "(string \<times> ref_dict) list"
  error_log :: "string list"

definition new_flight_details :: "FlightType \<Rightarrow> QueryType \<Rightarrow> int \<Rightarrow> int \<Rightarrow> FlightDetails" where
  "new_flight_details ft qt bn sid =
     \<lparr>flight_type = ft, s_id = sid, f_id = None, carrier = None, origin = None,
      destination = None, depart_dt = None, arrive_dt = None, aircraft = None, width = None,
      query_type = qt, batch_num = bn\<rparr>"

text \<open>
  One iteration of the \<open>for child in results_tree.iter('*')\<close> loop. A \<open>KeyError\<close> of a
  handler is not caught by \<open>parse_results\<close>: it ends the call, and only the reference
  accumulators, which are global, survive it.
\<close>

definition parse_step ::
  "FlightType \<Rightarrow> QueryType \<Rightarrow> int \<Rightarrow> datetime \<Rightarrow> parse_vars \<Rightarrow> xml
     \<Rightarrow> (py_error \<times> (string \<times> ref_dict) list) + parse_vars" where
  "parse_step ft qt bn now v child =
     (let v1 = v\<lparr>dictionaries := process_dict_updates (dictionaries v) child\<rparr>;
          v2 = (if tag child = ''itineraryFullDetail'' then v1\<lparr>started_yet := True\<rparr> else v1)
      in if \<not> started_yet v2 then Inr v2
         else
          let v3 = (if tag child = ''solution''
                    then v2\<lparr>sol_id := sol_id v2 + 1,
                            state := Some (new_flight_details ft qt bn (sol_id v2 + 1))\<rparr>
                    else v2)
          in case state v3 of
               None \<Rightarrow> Inr v3
             | Some st \<Rightarrow>
                (case update_flight_details now child st of
                   Inl e \<Rightarrow> Inl (e, dictionaries v3)
                 | Inr st' \<Rightarrow>
                    (case handle_create_df_row child st' (row v3) of
                       Inr (Some df) \<Rightarrow>
                         Inr (v3\<lparr>state := Some st', dfs := dfs v3 @ [df], row := row v3 + 1\<rparr>)
                     | Inr None \<Rightarrow> Inr (v3\<lparr>state := Some st'\<rparr>)
                     | Inl (ValueError e) \<Rightarrow>
                         Inr (v3\<lparr>state := Some st',
                                error_log := error_log v3 @ [''Skipping invalid row: '' @ e]\<rparr>)
                     | Inl e \<Rightarrow> Inl (e, dictionaries v3))))"

text \<open>
  The loop over the elements; \<open>clock i\<close> is what \<open>datetime.datetime.now()\<close> returns while
  the element at position \<open>i\<close> is processed.
\<close>

fun parse_loop ::
  "FlightType \<Rightarrow> QueryType \<Rightarrow> int \<Rightarrow> (nat \<Rightarrow> datetime) \<Rightarrow> nat \<Rightarrow> parse_vars \<Rightarrow> xml list
     \<Rightarrow> (py_error \<times> (string \<times> ref_dict) list) + parse_vars" where
  "parse_loop ft qt bn clock i v [] = Inr v"
| "parse_loop ft qt bn clock i v (child # rest) =
     (case parse_step ft qt bn (clock i) v child of
        Inl e \<Rightarrow> Inl e
      | Inr v' \<Rightarrow> parse_loop ft qt bn clock (Suc i) v' rest)"

definition parse_init :: "(string \<times> ref_dict) list \<Rightarrow> parse_vars" where
  "parse_init dicts =
     \<lparr>dfs = [], sol_id = 0, row = 0, started_yet = False, state = None,
      dictionaries = dicts, error_log = []\<rparr>"

text \<open>
  \<open>parse_results\<close> on the tree that \<open>et.fromstring\<close> built, with the reference accumulators
  as they are when it is called. It returns \<open>(dfs, row, s_id)\<close>; the accumulators and the log
  are its effects.
\<close>

definition parse_results ::
  "(nat \<Rightarrow> datetime) \<Rightarrow> (string \<times> ref_dict) list \<Rightarrow> xml \<Rightarrow> FlightType \<Rightarrow> QueryType \<Rightarrow> int
     \<Rightarrow> (py_error \<times> (string \<times> ref_dict) list) + parse_vars" where
  "parse_results clock dicts results_tree ft qt bn =
     parse_loop ft qt bn clock 0 (parse_init dicts) (iter results_tree)"

definition parse_output :: "parse_vars \<Rightarrow> leg_frame list \<times> int \<times> int" where
  "parse_output v = (dfs v, row v, sol_id v)"

subsection \<open>From the parser's frames to the raw leg table\<close>

text \<open>\<open>pd.concat(frames, ignore_index=True)\<close>: the rows in order, relabelled from \<open>0\<close>.\<close>

definition pd_concat_ignore_index :: "leg_frame list \<Rightarrow> leg_frame" where
  "pd_concat_ignore_index frames =
     (let rows = concat (map (map snd) frames) in zip (map int [0..<length rows]) rows)"

text \<open>
  \<open>query_and_process_flights\<close> keeps, for every call of \<open>parse_results\<close> that returned a
  non-empty list, the concatenation of its frames; \<open>process_flight_data\<close> concatenates
  those again. For an empty list it takes \<open>pd.DataFrame()\<close>, a frame without columns, here
  \<open>None\<close>: \<open>clean_raw_flight_data\<close> would raise \<open>KeyError\<close> on it, and \<open>run_eduardo\<close> calls
  \<open>process_flight_data\<close> only with a non-empty list.
\<close>

definition all_dfs :: "parse_vars list \<Rightarrow> leg_frame list" where
  "all_dfs outs = map (\<lambda>v. pd_concat_ignore_index (dfs v)) (filter (\<lambda>v. dfs v \<noteq> []) outs)"

definition initial_df :: "leg_frame list \<Rightarrow> leg_frame option" where
  "initial_df raw_flight_data =
     (if raw_flight_data \<noteq> [] then Some (pd_concat_ignore_index raw_flight_data) else None)"

text \<open>
  \<open>clean_raw_flight_data\<close> on a frame with the columns of the leg table: the number it logs
  as filtered out, and the frame it returns (\<open>df[df['Origin'] != '']\<close> keeps the labels of
  the rows it keeps).
\<close>

definition empty_origins :: "leg_frame \<Rightarrow> nat" where
  "empty_origins df = length (filter (\<lambda>(i, r). Origin r = Some '''') df)"

definition clean_raw_flight_data :: "leg_frame \<Rightarrow> leg_frame" where
  "clean_raw_flight_data df = filter (\<lambda>(i, r). Origin r \<noteq> Some '''') df"

section \<open>Batch planner\<close>

text \<open>
  What \<open>generate_xml_query_batch\<close> reads from its surroundings: the three code lists of the
  module (\<open>origins\<close>, \<open>destinations\<close>, \<open>origin_and_destination\<close>, column \<open>IATA Code\<close>), the
  date of the day as \<open>strftime('%Y-%m-%d')\<close> prints it, and what the \<open>ExcelDataManager\<close>
  answers: the two attribute dictionaries of \<open>get_parameters_dict\<close>, and for each element
  asked of \<open>get_parameter_value\<close> either its value or the \<open>ValueError\<close> that it raises when
  the sheet does not hold exactly one value.
\<close>

record planner_env =
  origins_iata_codes :: "string list"
  destinations_iata_codes :: "string list"
  origin_and_destination_iata_codes :: "string list"
  today :: string
  search_parameters :: "(string \<times> string) list"
  searchControl_parameters :: "(string \<times> string) list"
  minConnectionTime :: "py_error + string"
  maxStopCount :: "py_error + string"
  daysAfter :: "py_error + string"
  summarizer :: "py_error + string"

text \<open>
  \<open>range(0, stop, step)\<close> for a positive step, and \<open>batch_list\<close>: the slices
  \<open>items[i:i + size]\<close> for \<open>i\<close> in that range. A step of zero makes \<open>range\<close> raise
  \<open>ValueError\<close>; a negative step gives the empty range.
\<close>

definition py_range :: "nat \<Rightarrow> nat \<Rightarrow> nat list" where
  "py_range stop step = map (\<lambda>k. k * step) [0..<(stop + step - 1) div step]"

definition batch_list :: "'a list \<Rightarrow> int \<Rightarrow> py_error + 'a list list" where
  "batch_list items size' =
     (if size' = 0 then Inl (ValueError ''range() arg 3 must not be zero'')
      else if size' < 0 then Inr []
      else Inr (map (\<lambda>i. take (nat size') (drop i items)) (py_range (length items) (nat size'))))"

text \<open>A sub-element that only carries text.\<close>

definition text_element :: "string \<Rightarrow> string \<Rightarrow> xml" where
  "text_element t x = Element t [] (Some x) []"

text \<open>
  \<open>create_base_xml\<close> returns the \<open>search\<close> element and its \<open>slice\<close> element, to which the caller
  then appends the code elements. Here the elements to append are the argument \<open>codes\<close>, and
  the result is the finished \<open>search\<close> element. The parameter values are asked for in the
  order of the source, so the first missing one is the exception raised.
\<close>

definition create_base_xml :: "planner_env \<Rightarrow> FlightType \<Rightarrow> xml list \<Rightarrow> py_error + xml" where
  "create_base_xml env ft codes =
     (case minConnectionTime env of Inl e \<Rightarrow> Inl e | Inr mct \<Rightarrow>
      case maxStopCount env of Inl e \<Rightarrow> Inl e | Inr msc \<Rightarrow>
      case daysAfter env of Inl e \<Rightarrow> Inl e | Inr da \<Rightarrow>
      case summarizer env of Inl e \<Rightarrow> Inl e | Inr su \<Rightarrow>
        Inr (Element ''search'' (search_parameters env) None
          [Element ''inputs'' [] None
             [Element ''searchControl'' (searchControl_parameters env) None
                [text_element ''permittedServiceType'' (flight_type_name ft),
                 Element ''slice'' [] None
                   ([text_element ''date'' (today env),
                     text_element ''minConnectionTime'' mct,
                     text_element ''maxStopCount'' msc,
                     text_element ''daysAfter'' da] @ codes)]],
           text_element ''summarizer'' su]))"

text \<open>The primary and secondary element names and code lists for a query type.\<close>

definition primary_element :: "QueryType \<Rightarrow> string" where
  "primary_element qt = (if qt = ORIGIN then ''origin'' else ''destination'')"

definition secondary_element :: "QueryType \<Rightarrow> string" where
  "secondary_element qt = (if qt = ORIGIN then ''destination'' else ''origin'')"

definition primary_codes :: "planner_env \<Rightarrow> QueryType \<Rightarrow> string list" where
  "primary_codes env qt =
     (if qt = ORIGIN then origin_and_destination_iata_codes env @ origins_iata_codes env
      else origin_and_destination_iata_codes env @ destinations_iata_codes env)"

definition secondary_codes :: "planner_env \<Rightarrow> QueryType \<Rightarrow> string list" where
  "secondary_codes env qt =
     (if qt = ORIGIN then destinations_iata_codes env else origins_iata_codes env)"

text \<open>
  The loop over \<open>enumerate(primary_batches, 1)\<close>: one query per batch, numbered from
  \<open>num\<close> on; an exception of \<open>create_base_xml\<close> ends it.
\<close>

fun batched_queries ::
  "planner_env \<Rightarrow> QueryType \<Rightarrow> FlightType \<Rightarrow> int \<Rightarrow> string list list \<Rightarrow> py_error + (xml \<times> int) list" where
  "batched_queries env qt ft num [] = Inr []"
| "batched_queries env qt ft num (batch_codes # rest) =
     (case create_base_xml env ft
             (map (text_element (primary_element qt)) batch_codes @
              map (text_element (secondary_element qt)) (secondary_codes env qt)) of
        Inl e \<Rightarrow> Inl e
      | Inr search \<Rightarrow>
         (case batched_queries env qt ft (num + 1) rest of
            Inl e \<Rightarrow> Inl e
          | Inr queries \<Rightarrow> Inr ((search, num) # queries)))"

definition generate_xml_query_batch ::
  "planner_env \<Rightarrow> QueryType \<Rightarrow> FlightType \<Rightarrow> bool \<Rightarrow> int \<Rightarrow> py_error + (xml \<times> int) list" where
  "generate_xml_query_batch env qt ft enable_batching batch_size =
     (if \<not> enable_batching
      then (case create_base_xml env ft
                   (map (text_element (primary_element qt)) (primary_codes env qt) @
                    map (text_element (secondary_element qt)) (secondary_codes env qt)) of
              Inl e \<Rightarrow> Inl e
            | Inr search \<Rightarrow> Inr [(search, 1)])
      else (case batch_list (primary_codes env qt) batch_size of
              Inl e \<Rightarrow> Inl e
            | Inr primary_batches \<Rightarrow> batched_queries env qt ft 1 primary_batches))"

text \<open>
  Reading a payload back: \<open>find\<close> gives the first child with a tag, and the codes of a payload
  are the texts of the children of \<open>search/inputs/searchControl/slice\<close> with the given tag, in
  order.
\<close>

definition find_child :: "string \<Rightarrow> xml \<Rightarrow> xml option" where
  "find_child t e = List.find (\<lambda>c. tag c = t) (children e)"

definition payload_codes :: "string \<Rightarrow> xml \<Rightarrow> string option list" where
  "payload_codes t search =
     (case Option.bind (Option.bind (find_child ''inputs'' search) (find_child ''searchControl''))
             (find_child ''slice'') of
        None \<Rightarrow> []
      | Some slice_element \<Rightarrow> map etext (filter (\<lambda>c. tag c = t) (children slice_element)))"

section \<open>Enrichment engine\<close>

text \<open>
  Rows of the reference tables, with the columns that the joins use: of the airport table the
  columns \<open>code, name, country, latitude, longitude\<close>, of the carrier table \<open>code, name\<close>,
  of the country table \<open>code, name\<close>.
\<close>

record airport_ref =
  ap_code :: string
  ap_name :: string
  ap_country :: string
  ap_latitude :: string
  ap_longitude :: string

record carrier_ref =
  cr_code :: string
  cr_name :: string

record country_ref =
  co_code :: string
  co_name :: string

text \<open>
  \<open>reference_data\<close>, as far as the enrichment and the fold read it. The country table comes
  from a spreadsheet; \<open>None\<close> stands for a frame without a \<open>name\<close> or \<open>code\<close> column, on which
  the column selection raises.
\<close>

record reference_data =
  ref_airport :: "airport_ref list"
  ref_carrier :: "carrier_ref list"
  ref_countries :: "country_ref list option"

text \<open>
  \<open>left.merge(right, how='inner', on=key)\<close>: for every left row in order, one result row per
  right row with the same key, in the order of the right rows. The result has a fresh index.
\<close>

definition merge_inner :: "('l \<Rightarrow> 'k) \<Rightarrow> ('r \<Rightarrow> 'k) \<Rightarrow> 'l list \<Rightarrow> 'r list \<Rightarrow> ('l \<times> 'r) list" where
  "merge_inner lkey rkey left right =
     concat (map (\<lambda>l. map (\<lambda>r. (l, r)) (filter (\<lambda>r. lkey l = rkey r) right)) left)"

text \<open>
  The warnings of the enrichment. The sample of unknown keys is printed as
  \<open>list(unknown)[:5]\<close>, up to five members of a set in no specified order; the entry holds
  the set.
\<close>

datatype log_entry =
    Lost_rows string nat
  | Unknown_sample string "string option set"
  | Warning string

definition join_loss_log ::
  "string \<Rightarrow> nat \<Rightarrow> nat \<Rightarrow> (string \<times> string option set) option \<Rightarrow> log_entry list" where
  "join_loss_log what before_count after_count unknown =
     (if after_count < before_count
      then Lost_rows what (before_count - after_count) #
           (case unknown of
              None \<Rightarrow> []
            | Some (label, keys) \<Rightarrow> if keys \<noteq> {} then [Unknown_sample label keys] else [])
      else [])"

text \<open>The three joins of \<open>enrich_flight_data\<close>, each with its loss detection.\<close>

definition origin_join ::
  "leg_frame \<Rightarrow> reference_data \<Rightarrow> (flight_row \<times> airport_ref) list \<times> log_entry list" where
  "origin_join flight_data refs =
     (let results = merge_inner Origin (\<lambda>a. Some (ap_code a)) (map snd flight_data) (ref_airport refs)
      in (results,
          join_loss_log ''origin airport'' (length flight_data) (length results)
            (Some (''Unknown origins'',
               set (map (Origin \<circ> snd) flight_data) - set (map (Some \<circ> ap_code) (ref_airport refs))))))"

definition destination_join ::
  "leg_frame \<Rightarrow> (flight_row \<times> airport_ref) list \<Rightarrow> reference_data
     \<Rightarrow> ((flight_row \<times> airport_ref) \<times> airport_ref) list \<times> log_entry list" where
  "destination_join flight_data results refs =
     (let results' = merge_inner (Destination \<circ> fst) (\<lambda>a. Some (ap_code a)) results (ref_airport refs)
      in (results',
          join_loss_log ''destination airport'' (length results) (length results')
            (Some (''Unknown destinations'',
               set (map (Destination \<circ> snd) flight_data) -
               set (map (Some \<circ> ap_code) (ref_airport refs))))))"

definition carrier_join ::
  "((flight_row \<times> airport_ref) \<times> airport_ref) list \<Rightarrow> reference_data
     \<Rightarrow> (((flight_row \<times> airport_ref) \<times> airport_ref) \<times> carrier_ref) list \<times> log_entry list" where
  "carrier_join results refs =
     (let results' = merge_inner (Airline_Code \<circ> fst \<circ> fst) (\<lambda>c. Some (cr_code c)) results
                       (ref_carrier refs)
      in (results', join_loss_log ''carrier'' (length results) (length results') None))"

text \<open>
  A parsed time is a point in time in whole seconds since the epoch (the result documents
  give times to the minute).
\<close>

type_synonym timestamp = int

text \<open>
  An enriched leg: the leg, the airport rows joined on origin and on destination, the carrier
  row, and the two times parsed.
\<close>

record enriched_leg =
  leg :: flight_row
  origin_airport :: airport_ref
  destination_airport :: airport_ref
  airline :: carrier_ref
  departure_time :: timestamp
  arrival_time :: timestamp

text \<open>
  What \<open>dateutil.parser.parse\<close> returns for a string: the time, and whether it carries a time
  zone (the string named an offset). It is a parameter: it maps a string to such a value or
  raises. Applied to anything but a string it raises \<open>TypeError\<close>.
\<close>

type_synonym parsed_time = "timestamp \<times> bool"

definition parse_time_value ::
  "(string \<Rightarrow> py_error + parsed_time) \<Rightarrow> dt_value option \<Rightarrow> py_error + parsed_time" where
  "parse_time_value date_parse x =
     (case x of
        Some (DtStr s) \<Rightarrow> date_parse s
      | _ \<Rightarrow> Inl (TypeError ''Parser must be a string or character stream''))"

text \<open>\<open>column.apply(f)\<close> for an \<open>f\<close> that may raise: the first exception ends it.\<close>

fun apply_raising :: "('a \<Rightarrow> py_error + 'b) \<Rightarrow> 'a list \<Rightarrow> py_error + 'b list" where
  "apply_raising f [] = Inr []"
| "apply_raising f (x # xs) =
     (case f x of
        Inl e \<Rightarrow> Inl e
      | Inr y \<Rightarrow> (case apply_raising f xs of Inl e \<Rightarrow> Inl e | Inr ys \<Rightarrow> Inr (y # ys)))"

definition enriched_of ::
  "(((flight_row \<times> airport_ref) \<times> airport_ref) \<times> carrier_ref) \<Rightarrow> timestamp \<Rightarrow> timestamp \<Rightarrow> enriched_leg" where
  "enriched_of r dep arr =
     \<lparr>leg = fst (fst (fst r)), origin_airport = snd (fst (fst r)),
      destination_airport = snd (fst r), airline = snd r,
      departure_time = dep, arrival_time = arr\<rparr>"

text \<open>
  A column of parsed times in which some carry a time zone and some do not: sorting by it
  compares one of each kind, which raises \<open>TypeError\<close>.
\<close>

definition mixed_zones :: "parsed_time list \<Rightarrow> bool" where
  "mixed_zones ts = (list_ex snd ts \<and> list_ex (\<lambda>t. \<not> snd t) ts)"

text \<open>
  \<open>enrich_flight_data\<close>: the three joins, the two time columns parsed (departure column
  first), and the rows sorted by itinerary id and departure time, rows with equal keys staying
  in order. The sort raises when the departure column mixes times with and without a zone.
\<close>

definition enrich_flight_data ::
  "(string \<Rightarrow> py_error + parsed_time) \<Rightarrow> leg_frame \<Rightarrow> reference_data
     \<Rightarrow> py_error + (enriched_leg list \<times> log_entry list)" where
  "enrich_flight_data date_parse flight_data refs =
     (let (r1, log1) = origin_join flight_data refs;
          (r2, log2) = destination_join flight_data r1 refs;
          (r3, log3) = carrier_join r2 refs
      in case apply_raising (parse_time_value date_parse)
                (map (Departure_Time \<circ> fst \<circ> fst \<circ> fst) r3) of
           Inl e \<Rightarrow> Inl e
         | Inr deps \<Rightarrow>
            (case apply_raising (parse_time_value date_parse)
                    (map (Arrival_Time \<circ> fst \<circ> fst \<circ> fst) r3) of
               Inl e \<Rightarrow> Inl e
             | Inr arrs \<Rightarrow>
                if mixed_zones deps
                then Inl (TypeError ''cannot compare offset-naive and offset-aware datetimes'')
                else Inr (sort_key (\<lambda>r. (Solution_ID (leg r), departure_time r))
                            (map (\<lambda>(r, dep, arr). enriched_of r (fst dep) (fst arr))
                               (zip r3 (zip deps arrs))),
                          log1 @ log2 @ log3)))"

section \<open>Itinerary folder\<close>

text \<open>
  The aggregations of \<open>groupby(...).agg\<close>. \<open>first\<close> and \<open>last\<close> skip null values: they give
  the first (last) value of the column in the group that is not null, and null if there is
  none. \<open>count\<close> counts the values that are not null.
\<close>

definition pd_first :: "'a option list \<Rightarrow> 'a option" where
  "pd_first xs = (case filter (\<lambda>x. x \<noteq> None) xs of [] \<Rightarrow> None | x # _ \<Rightarrow> x)"

definition pd_last :: "'a option list \<Rightarrow> 'a option" where
  "pd_last xs = (case rev (filter (\<lambda>x. x \<noteq> None) xs) of [] \<Rightarrow> None | x # _ \<Rightarrow> x)"

definition pd_count :: "'a option list \<Rightarrow> nat" where
  "pd_count xs = length (filter (\<lambda>x. x \<noteq> None) xs)"

text \<open>\<open>'|'.join(xs)\<close>; on a list with a \<open>None\<close> in it, \<open>join\<close> raises \<open>TypeError\<close>.\<close>

fun pipe_join :: "string list \<Rightarrow> string" where
  "pipe_join [] = ''''"
| "pipe_join [x] = x"
| "pipe_join (x # y # ys) = x @ ''|'' @ pipe_join (y # ys)"

definition pipe_join_values :: "string option list \<Rightarrow> py_error + string" where
  "pipe_join_values xs =
     (case those xs of
        None \<Rightarrow> Inl (TypeError ''sequence item: expected str instance, NoneType found'')
      | Some ys \<Rightarrow> Inr (pipe_join ys))"

text \<open>
  One row of the folded table, under the column names that the fold assigns. The column
  \<open>Flights\<close> first holds the list of flight numbers and at the end their \<open>'|'\<close>-joined
  string, hence the type parameter. The two country name columns exist only after the country
  joins; \<open>None\<close> is the column missing. In \<open>Via IATA\<close> and the other code columns \<open>None\<close> is
  the null value.
\<close>

record 'f itinerary =
  it_Flight_Type :: string
  it_Flights :: 'f
  it_Num_Stops :: nat
  it_Origin_IATA :: "string option"
  it_Origin_Airport_Name :: string
  it_Origin_ISO_Country_Code :: string
  it_Origin_Latitude :: string
  it_Origin_Longitude :: string
  it_Via_IATA :: "string option"
  it_Destination_IATA :: "string option"
  it_Via_Airport_Name :: string
  it_Destination_Airport_Name :: string
  it_Via_ISO_Country_Code :: string
  it_Destination_ISO_Country_Code :: string
  it_Via_Latitude :: string
  it_Destination_Latitude :: string
  it_Via_Longitude :: string
  it_Destination_Longitude :: string
  it_Airline_Codes :: string
  it_Airline_Names :: string
  it_Aircrafts :: string
  it_Widths :: string
  it_Departure_DT :: timestamp
  it_Arrival_DT :: timestamp
  it_Origin_Country :: "string option"
  it_Destination_Country :: "string option"

text \<open>
  \<open>groupby('Solution ID')\<close>: one group per itinerary id, the ids ascending, the rows of a
  group in the order of the table.
\<close>

definition groupby_solution_id :: "enriched_leg list \<Rightarrow> (int \<times> enriched_leg list) list" where
  "groupby_solution_id flight_data =
     map (\<lambda>k. (k, filter (\<lambda>r. Solution_ID (leg r) = k) flight_data))
       (sort (remdups (map (Solution_ID \<circ> leg) flight_data)))"

text \<open>The aggregation of one group (a group has at least one row).\<close>

fun agg_group :: "enriched_leg list \<Rightarrow> py_error + (string option list) itinerary" where
  "agg_group [] = Inl (ValueError ''empty group'')"
| "agg_group (r # rs) =
     (let g = r # rs in
      case pipe_join_values (map (Airline_Code \<circ> leg) g) of Inl e \<Rightarrow> Inl e | Inr codes \<Rightarrow>
      case pipe_join_values (map (Aircraft \<circ> leg) g) of Inl e \<Rightarrow> Inl e | Inr aircrafts \<Rightarrow>
      case pipe_join_values (map (Width \<circ> leg) g) of Inl e \<Rightarrow> Inl e | Inr widths \<Rightarrow>
        Inr \<lparr>it_Flight_Type = Flight_Type (leg r),
             it_Flights = map (Flight_No \<circ> leg) g,
             it_Num_Stops = pd_count (map (Flight_No \<circ> leg) g),
             it_Origin_IATA = pd_first (map (Origin \<circ> leg) g),
             it_Origin_Airport_Name = ap_name (origin_airport r),
             it_Origin_ISO_Country_Code = ap_country (origin_airport r),
             it_Origin_Latitude = ap_latitude (origin_airport r),
             it_Origin_Longitude = ap_longitude (origin_airport r),
             it_Via_IATA = pd_first (map (Destination \<circ> leg) g),
             it_Destination_IATA = pd_last (map (Destination \<circ> leg) g),
             it_Via_Airport_Name = ap_name (destination_airport r),
             it_Destination_Airport_Name = ap_name (destination_airport (last g)),
             it_Via_ISO_Country_Code = ap_country (destination_airport r),
             it_Destination_ISO_Country_Code = ap_country (destination_airport (last g)),
             it_Via_Latitude = ap_latitude (destination_airport r),
             it_Destination_Latitude = ap_latitude (destination_airport (last g)),
             it_Via_Longitude = ap_longitude (destination_airport r),
             it_Destination_Longitude = ap_longitude (destination_airport (last g)),
             it_Airline_Codes = codes,
             it_Airline_Names = pipe_join (map (cr_name \<circ> airline) g),
             it_Aircrafts = aircrafts,
             it_Widths = widths,
             it_Departure_DT = departure_time r,
             it_Arrival_DT = arrival_time (last g),
             it_Origin_Country = None,
             it_Destination_Country = None\<rparr>)"

text \<open>
  The two country joins, inside \<open>try\<close>: inner joins on the origin and on the final
  destination country code. When the country frame cannot be used the exception is logged as
  a warning and the table stays as it is.
\<close>

definition add_countries ::
  "'f itinerary list \<Rightarrow> reference_data \<Rightarrow> 'f itinerary list \<times> log_entry list" where
  "add_countries cleaned refs =
     (case ref_countries refs of
        None \<Rightarrow> (cleaned, [Warning ''Could not add country information''])
      | Some countries_df \<Rightarrow>
         (map (\<lambda>(r, c). r\<lparr>it_Destination_Country := Some (co_name c)\<rparr>)
            (merge_inner it_Destination_ISO_Country_Code co_code
               (map (\<lambda>(r, c). r\<lparr>it_Origin_Country := Some (co_name c)\<rparr>)
                  (merge_inner it_Origin_ISO_Country_Code co_code cleaned countries_df))
               countries_df),
          []))"

text \<open>The fix of \<open>Via IATA\<close>, row by row.\<close>

definition fix_via :: "'f itinerary \<Rightarrow> 'f itinerary" where
  "fix_via r =
     r\<lparr>it_Via_IATA := (if it_Via_IATA r \<noteq> it_Destination_IATA r then it_Via_IATA r else None)\<rparr>"

definition join_flights :: "(string option list) itinerary \<Rightarrow> py_error + string itinerary" where
  "join_flights r =
     (case pipe_join_values (it_Flights r) of
        Inl e \<Rightarrow> Inl e
      | Inr flights \<Rightarrow>
          Inr \<lparr>it_Flight_Type = it_Flight_Type r,
               it_Flights = flights,
               it_Num_Stops = it_Num_Stops r,
               it_Origin_IATA = it_Origin_IATA r,
               it_Origin_Airport_Name = it_Origin_Airport_Name r,
               it_Origin_ISO_Country_Code = it_Origin_ISO_Country_Code r,
               it_Origin_Latitude = it_Origin_Latitude r,
               it_Origin_Longitude = it_Origin_Longitude r,
               it_Via_IATA = it_Via_IATA r,
               it_Destination_IATA = it_Destination_IATA r,
               it_Via_Airport_Name = it_Via_Airport_Name r,
               it_Destination_Airport_Name = it_Destination_Airport_Name r,
               it_Via_ISO_Country_Code = it_Via_ISO_Country_Code r,
               it_Destination_ISO_Country_Code = it_Destination_ISO_Country_Code r,
               it_Via_Latitude = it_Via_Latitude r,
               it_Destination_Latitude = it_Destination_Latitude r,
               it_Via_Longitude = it_Via_Longitude r,
               it_Destination_Longitude = it_Destination_Longitude r,
               it_Airline_Codes = it_Airline_Codes r,
               it_Airline_Names = it_Airline_Names r,
               it_Aircrafts = it_Aircrafts r,
               it_Widths = it_Widths r,
               it_Departure_DT = it_Departure_DT r,
               it_Arrival_DT = it_Arrival_DT r,
               it_Origin_Country = it_Origin_Country r,
               it_Destination_Country = it_Destination_Country r\<rparr>)"

definition transform_flight_structure ::
  "enriched_leg list \<Rightarrow> reference_data \<Rightarrow> py_error + (string itinerary list \<times> log_entry list)" where
  "transform_flight_structure flight_data refs =
     (case apply_raising agg_group (map snd (groupby_solution_id flight_data)) of
        Inl e \<Rightarrow> Inl e
      | Inr cleaned \<Rightarrow>
         (let (cleaned', log) = add_countries cleaned refs
          in case apply_raising join_flights (map fix_via cleaned') of
               Inl e \<Rightarrow> Inl e
             | Inr cleaned'' \<Rightarrow> Inr (cleaned'', log)))"

section \<open>Metrics and schema finalizer\<close>

subsection \<open>Python floats\<close>

text \<open>
  A Python \<open>float\<close> is a binary64 number, here the rational it denotes. An operation on
  floats returns the binary64 number nearest to the exact result, ties going to the even
  significand: with \<open>2 ^ 52 \<le> \<bar>q\<bar> / 2 ^ e < 2 ^ 53\<close> it is \<open>q / 2 ^ e\<close> rounded to an integer,
  times \<open>2 ^ e\<close>. The bounds of the exponent are not modelled: the numbers of this stage are
  whole seconds of a time difference, their quotients by 3600 and numbers of two decimals.
\<close>

definition pow2 :: "int \<Rightarrow> rat" where
  "pow2 e = (if 0 \<le> e then 2 ^ nat e else 1 / 2 ^ nat (- e))"

definition round_half_even :: "rat \<Rightarrow> int" where
  "round_half_even r =
     (let f = \<lfloor>r\<rfloor>; d = r - of_int f
      in if d < 1 / 2 then f else if 1 / 2 < d then f + 1 else if even f then f else f + 1)"

definition ulp_exponent :: "rat \<Rightarrow> int" where
  "ulp_exponent q =
     (let (a, b) = quotient_of \<bar>q\<bar>; e = bitlen a - bitlen b - 53
      in if 2 ^ 53 \<le> \<bar>q\<bar> / pow2 e then e + 1 else e)"

definition nearest_double :: "rat \<Rightarrow> rat" where
  "nearest_double q =
     (if q = 0 then 0
      else of_int (round_half_even (q / pow2 (ulp_exponent q))) * pow2 (ulp_exponent q))"

text \<open>
  \<open>x / y\<close> on floats (here \<open>y\<close> is the constant \<open>60**2\<close>), and \<open>round(x, ndigits)\<close> for a float
  and \<open>ndigits \<ge> 0\<close>: the exact value of \<open>x\<close> rounded to \<open>ndigits\<close> decimals, ties to even, and
  that decimal number converted to the nearest float.
\<close>

definition py_truediv :: "rat \<Rightarrow> rat \<Rightarrow> rat" where
  "py_truediv x y = nearest_double (x / y)"

definition py_round :: "rat \<Rightarrow> nat \<Rightarrow> rat" where
  "py_round x ndigits = nearest_double (of_int (round_half_even (x * 10 ^ ndigits)) / 10 ^ ndigits)"

subsection \<open>\<open>calculate_flight_metrics\<close>\<close>

text \<open>
  \<open>total_seconds()\<close> of the difference of two times. Times are whole seconds, and so is their
  difference, which as a float is exact.
\<close>

definition total_seconds :: "int \<Rightarrow> rat" where
  "total_seconds delta = of_int delta"

text \<open>The columns that downstream persistence expects.\<close>

definition required_columns :: "string list" where
  "required_columns =
     [''Origin IATA'', ''Origin ISO Country Code'', ''Origin Country'',
      ''Destination IATA'', ''Destination ISO Country Code'', ''Destination Country'',
      ''Departure Time (local)'', ''Arrival Time (local)'', ''Flight Num'', ''Airline IATA'',
      ''duration'', ''Arrival Time Hour'', ''Origin Latitude'', ''Origin Longitude'',
      ''Origin Airport Name'', ''Origin Closed'', ''Destination Latitude'',
      ''Destination Longitude'', ''Destination Airport Name'', ''Destination Closed'',
      ''Country Alert Updated'', ''Alert Date'', ''Alert Time'', ''Message'', ''Mode'',
      ''Num Stops'', ''Current Capacity Status'', ''Current Capacity Status Ind'',
      ''Passenger Flight Capacity % Change'', ''Passenger Flight Capacity % Change Num'',
      ''Freighter Capacity % Change'', ''Freighter Capacity % Change Num'',
      ''Flights'', ''Via IATA'', ''Departure DT'', ''Arrival DT'', ''Dummy Column 4'',
      ''Dummy Column 5'', ''Dummy Column 6'']"

text \<open>
  A row of the final table: the columns of the fold, the two duration columns and the stamp.
  The required columns that the frame lacks are added with nulls in every row; the result
  names them.
\<close>

record final_row =
  folded :: "string itinerary"
  Duration_DT :: rat
  duration :: rat
  Updated :: string

definition calculate_flight_metrics ::
  "string \<Rightarrow> string list \<Rightarrow> string itinerary list \<Rightarrow> final_row list \<times> string list" where
  "calculate_flight_metrics now_text columns flight_data =
     (map (\<lambda>r. \<lparr>folded = r,
                Duration_DT = total_seconds (it_Arrival_DT r - it_Departure_DT r),
                duration = py_round (py_truediv (total_seconds (it_Arrival_DT r - it_Departure_DT r))
                                       (60 ^ 2)) 2,
                Updated = now_text\<rparr>) flight_data,
      filter (\<lambda>col. col \<notin> set (columns @ [''Duration DT'', ''duration''])) required_columns)"

section \<open>Derived notions\<close>

text \<open>The rows of a leg table whose origin is the code of no airport row.\<close>

definition unmatched_origin_rows :: "leg_frame \<Rightarrow> reference_data \<Rightarrow> leg_frame" where
  "unmatched_origin_rows flight_data refs =
     filter (\<lambda>(i, r). Origin r \<notin> set (map (Some \<circ> ap_code) (ref_airport refs))) flight_data"

section \<open>Example inputs\<close>

text \<open>
  A result document with one reference element and one itinerary: a complete leg, then a leg
  element that lacks three attributes, each followed by an aircraft element.
\<close>

definition example_doc :: xml where
  "example_doc = Element ''itineraryFullDetail'' [] None
     [Element ''carrier'' [(''code'', ''AA''), (''name'', ''American'')] None [],
      Element ''solution'' [] None
       [Element ''flight'' [(''carrier'', ''AA''), (''number'', ''12'')] None [],
        Element ''leg'' [(''origin'', ''JFK''), (''destination'', ''LHR''),
          (''departure'', ''2024-01-01T10:00''), (''arrival'', ''2024-01-01T17:00'')] None [],
        Element ''aircraft'' [(''name'', ''B777''), (''width'', ''wide'')] None [],
        Element ''leg'' [(''origin'', ''LHR'')] None [],
        Element ''aircraft'' [(''name'', ''A320''), (''width'', ''narrow'')] None []]]"

definition example_clock :: "nat \<Rightarrow> datetime" where
  "example_clock i = 1000 + int i"

text \<open>
  A result document with one itinerary of two legs under one flight element: no flight
  element stands between the two aircraft elements.
\<close>

definition example_doc2 :: xml where
  "example_doc2 = Element ''itineraryFullDetail'' [] None
     [Element ''solution'' [] None
       [Element ''flight'' [(''carrier'', ''AA''), (''number'', ''12'')] None [],
        Element ''leg'' [(''origin'', ''JFK''), (''destination'', ''LHR''),
          (''departure'', ''2024-01-01T10:00''), (''arrival'', ''2024-01-01T17:00'')] None [],
        Element ''aircraft'' [(''name'', ''B777''), (''width'', ''wide'')] None [],
        Element ''leg'' [(''origin'', ''LHR''), (''destination'', ''NBO''),
          (''departure'', ''2024-01-01T19:00''), (''arrival'', ''2024-01-02T05:00'')] None [],
        Element ''aircraft'' [(''name'', ''A320''), (''width'', ''narrow'')] None []]]"

text \<open>
  A result document whose marker is not the root: an airport element and a solution element
  come before the marker, a city and an aircraft element between the marker and the first
  solution element after it.
\<close>

definition example_doc3 :: xml where
  "example_doc3 = Element ''result'' [] None
     [Element ''airport'' [(''code'', ''JFK''), (''city'', ''NYC'')] None [],
      Element ''solution'' [] None [],
      Element ''itineraryFullDetail'' [] None
       [Element ''city'' [(''code'', ''NYC''), (''country'', ''US'')] None [],
        Element ''aircraft'' [(''name'', ''B777''), (''width'', ''wide'')] None [],
        Element ''solution'' [] None
         [Element ''flight'' [(''carrier'', ''AA''), (''number'', ''12'')] None [],
          Element ''leg'' [(''origin'', ''JFK''), (''destination'', ''LHR''),
            (''departure'', ''2024-01-01T10:00''), (''arrival'', ''2024-01-01T17:00'')] None [],
          Element ''aircraft'' [(''name'', ''B777''), (''width'', ''wide'')] None []]]]"

text \<open>A planner environment: five primary codes for an origin query, two secondary ones.\<close>

definition example_env :: planner_env where
  "example_env =
     \<lparr>origins_iata_codes = [''JFK'', ''LAX'', ''ORD''],
      destinations_iata_codes = [''LHR'', ''CDG''],
      origin_and_destination_iata_codes = [''NBO'', ''DXB''],
      today = ''2024-01-01'',
      search_parameters = [(''key'', ''k'')],
      searchControl_parameters = [],
      minConnectionTime = Inr ''60'', maxStopCount = Inr ''2'', daysAfter = Inr ''3'',
      summarizer = Inr ''s''\<rparr>"

text \<open>
  A leg table of two rows, the second with an origin that no airport row has; a reference
  table with one row per airport code; and one in which the code \<open>JFK\<close> has two rows that
  differ in the name.
\<close>

definition example_leg :: "string \<Rightarrow> string \<Rightarrow> int \<Rightarrow> flight_row" where
  "example_leg orig dest sid =
     \<lparr>Flight_Type = ''F'', Origin = Some orig, Destination = Some dest,
      Flight_No = Some ''AA12'', Airline_Code = Some ''AA'', Aircraft = Some ''B777'',
      Width = Some ''wide'', Solution_ID = sid,
      Departure_Time = Some (DtStr ''2024-01-01T10:00:00''),
      Arrival_Time = Some (DtStr ''2024-01-01T13:30:00''),
      Query_Type = ''ORIGIN'', Batch_Number = 1\<rparr>"

definition example_legs :: leg_frame where
  "example_legs = [(0, example_leg ''JFK'' ''LHR'' 1), (1, example_leg ''XXX'' ''LHR'' 2)]"

definition example_airport :: "string \<Rightarrow> string \<Rightarrow> string \<Rightarrow> airport_ref" where
  "example_airport c n k =
     \<lparr>ap_code = c, ap_name = n, ap_country = k, ap_latitude = ''0'', ap_longitude = ''0''\<rparr>"

definition example_refs :: reference_data where
  "example_refs =
     \<lparr>ref_airport = [example_airport ''JFK'' ''Kennedy'' ''US'',
                      example_airport ''LHR'' ''Heathrow'' ''GB''],
      ref_carrier = [\<lparr>cr_code = ''AA'', cr_name = ''American''\<rparr>],
      ref_countries = Some [\<lparr>co_code = ''US'', co_name = ''United States''\<rparr>,
                            \<lparr>co_code = ''GB'', co_name = ''United Kingdom''\<rparr>]\<rparr>"

definition example_refs_dup :: reference_data where
  "example_refs_dup =
     \<lparr>ref_airport = [example_airport ''JFK'' ''Kennedy'' ''US'',
                      example_airport ''JFK'' ''John F Kennedy Intl'' ''US'',
                      example_airport ''LHR'' ''Heathrow'' ''GB''],
      ref_carrier = [\<lparr>cr_code = ''AA'', cr_name = ''American''\<rparr>],
      ref_countries = Some [\<lparr>co_code = ''US'', co_name = ''United States''\<rparr>,
                            \<lparr>co_code = ''GB'', co_name = ''United Kingdom''\<rparr>]\<rparr>"

text \<open>
  An enriched table of three legs: itinerary 1 is JFK to LHR to NBO, itinerary 2 is JFK to LHR.
\<close>

definition example_enriched_leg :: "string \<Rightarrow> string \<Rightarrow> int \<Rightarrow> timestamp \<Rightarrow> timestamp \<Rightarrow> enriched_leg" where
  "example_enriched_leg orig dest sid dep arr =
     \<lparr>leg = example_leg orig dest sid,
      origin_airport = example_airport orig orig ''US'',
      destination_airport = example_airport dest dest ''GB'',
      airline = \<lparr>cr_code = ''AA'', cr_name = ''American''\<rparr>,
      departure_time = dep, arrival_time = arr\<rparr>"

definition example_enriched :: "enriched_leg list" where
  "example_enriched =
     [example_enriched_leg ''JFK'' ''LHR'' 1 10 20,
      example_enriched_leg ''LHR'' ''NBO'' 1 30 40,
      example_enriched_leg ''JFK'' ''LHR'' 2 10 20]"

text \<open>
  A folded row for a direct flight JFK to LHR that departs at \<open>dep\<close> and arrives at \<open>arr\<close>;
  \<open>1704103200\<close> is 2024-01-01T10:00:00 and \<open>1704115800\<close> is 2024-01-01T13:30:00 (UTC).
\<close>

definition example_itinerary :: "timestamp \<Rightarrow> timestamp \<Rightarrow> string itinerary" where
  "example_itinerary dep arr =
     \<lparr>it_Flight_Type = ''F'', it_Flights = ''AA12'', it_Num_Stops = 1,
      it_Origin_IATA = Some ''JFK'', it_Origin_Airport_Name = ''Kennedy'',
      it_Origin_ISO_Country_Code = ''US'', it_Origin_Latitude = ''0'',
      it_Origin_Longitude = ''0'', it_Via_IATA = None, it_Destination_IATA = Some ''LHR'',
      it_Via_Airport_Name = ''Heathrow'', it_Destination_Airport_Name = ''Heathrow'',
      it_Via_ISO_Country_Code = ''GB'', it_Destination_ISO_Country_Code = ''GB'',
      it_Via_Latitude = ''0'', it_Destination_Latitude = ''0'', it_Via_Longitude = ''0'',
      it_Destination_Longitude = ''0'', it_Airline_Codes = ''AA'',
      it_Airline_Names = ''American'', it_Aircrafts = ''B777'', it_Widths = ''wide'',
      it_Departure_DT = dep, it_Arrival_DT = arr,
      it_Origin_Country = Some ''United States'',
      it_Destination_Country = Some ''United Kingdom''\<rparr>"

section \<open>Auxiliary predicates\<close>

text \<open>Every row of the frames has a true (non-empty) origin.\<close>

definition origins_ok :: "leg_frame list \<Rightarrow> bool" where
  "origins_ok frames = (\<forall>f \<in> set frames. \<forall>(k, r) \<in> set f. truthy_str (Origin r))"

text \<open>
  An accumulator that still holds the flight number, carrier code and itinerary id of an
  earlier one (and, with \<open>noleg\<close>, its origin, destination and times), and frames whose rows
  all carry those of an accumulator.
\<close>

definition same_flight :: "bool \<Rightarrow> FlightDetails \<Rightarrow> FlightDetails \<Rightarrow> bool" where
  "same_flight noleg fd fd' =
     (f_id fd' = f_id fd \<and> carrier fd' = carrier fd \<and> s_id fd' = s_id fd \<and>
      (noleg \<longrightarrow> origin fd' = origin fd \<and> destination fd' = destination fd \<and>
         depart_dt fd' = depart_dt fd \<and> arrive_dt fd' = arrive_dt fd))"

definition rows_of_flight :: "bool \<Rightarrow> FlightDetails \<Rightarrow> leg_frame list \<Rightarrow> bool" where
  "rows_of_flight noleg fd frames =
     (\<forall>f \<in> set frames. \<forall>(k, r) \<in> set f.
        Flight_No r = f_id fd \<and> Airline_Code r = carrier fd \<and> Solution_ID r = s_id fd \<and>
        (noleg \<longrightarrow> Origin r = origin fd \<and> Destination r = destination fd \<and>
           Departure_Time r = depart_dt fd \<and> Arrival_Time r = arrive_dt fd))"

text \<open>
  Two accumulators of two runs on the same elements agree: all fields are equal, except that
  the two time fields may differ while the origin is empty.
\<close>

definition acc_agree :: "FlightDetails \<Rightarrow> FlightDetails \<Rightarrow> bool" where
  "acc_agree a b =
     (flight_type a = flight_type b \<and> s_id a = s_id b \<and> f_id a = f_id b \<and>
      carrier a = carrier b \<and> origin a = origin b \<and> destination a = destination b \<and>
      aircraft a = aircraft b \<and> width a = width b \<and> query_type a = query_type b \<and>
      batch_num a = batch_num b \<and>
      (truthy_str (origin a) \<longrightarrow> depart_dt a = depart_dt b \<and> arrive_dt a = arrive_dt b))"

text \<open>
  The local variables of two runs agree: equal but for the reference accumulators, and for
  the accumulators in progress, which agree.
\<close>

definition vars_agree :: "parse_vars \<Rightarrow> parse_vars \<Rightarrow> bool" where
  "vars_agree v w =
     (dfs v = dfs w \<and> sol_id v = sol_id w \<and> row v = row w \<and> started_yet v = started_yet w \<and>
      error_log v = error_log w \<and> rel_option acc_agree (state v) (state w))"

section \<open>Properties\<close>

subsection \<open>Evaluation of the parser on concrete documents\<close>

lemmas parser_defs = parse_results_def parse_init_def parse_step_def Let_def
  process_dict_updates_def append_to_dict_lists_def dictionaries_init_def
  carrier_dict_def city_dict_def airport_dict_def aircraft_dict_def
  update_flight_details_def update_flight_info_def update_leg_info_def leg_defaults_def
  update_aircraft_info_def handle_create_df_row_def validate_flight_details_def
  truthy_enum_def truthy_int_def create_flight_row_def new_flight_details_def

subsection \<open>The loop, element by element\<close>

lemma parse_loop_append:
  "parse_loop ft qt bn clock i v (xs @ ys) =
     (case parse_loop ft qt bn clock i v xs of Inl e \<Rightarrow> Inl e
      | Inr v' \<Rightarrow> parse_loop ft qt bn clock (i + length xs) v' ys)"
  by (induction xs arbitrary: i v) (auto split: sum.splits)

lemma parse_loop_split:
  assumes "parse_loop ft qt bn clock i v (pre @ child # post) = Inr fin"
  obtains w w' where "parse_loop ft qt bn clock i v pre = Inr w"
    and "parse_step ft qt bn (clock (i + length pre)) w child = Inr w'"
    and "parse_loop ft qt bn clock (Suc (i + length pre)) w' post = Inr fin"
  using assms by (auto simp: parse_loop_append split: sum.splits)

lemma truthy_str_iff: "truthy_str x \<longleftrightarrow> x \<noteq> None \<and> x \<noteq> Some ''''"
  by (cases x) auto

lemma validate_aircraft_upd:
  "validate_flight_details (fd\<lparr>aircraft := a, width := w\<rparr>) = validate_flight_details fd"
  by (simp add: validate_flight_details_def)

lemma parse_step_dfs_mono:
  "parse_step ft qt bn now v child = Inr v' \<Longrightarrow> \<exists>new. dfs v' = dfs v @ new"
  by (auto simp: parse_step_def Let_def handle_create_df_row_def
      split: if_splits option.splits sum.splits py_error.splits)

lemma parse_loop_dfs_mono:
  "parse_loop ft qt bn clock i v xs = Inr fin \<Longrightarrow> \<exists>new. dfs fin = dfs v @ new"
proof (induction xs arbitrary: i v)
  case Nil
  then show ?case by simp
next
  case (Cons c xs)
  then obtain v' where s: "parse_step ft qt bn (clock i) v c = Inr v'"
    and l: "parse_loop ft qt bn clock (Suc i) v' xs = Inr fin"
    by (auto split: sum.splits)
  from parse_step_dfs_mono[OF s] Cons.IH[OF l] show ?case by auto
qed

lemma parse_step_aircraft_valid:
  assumes "tag child = ''aircraft''" "started_yet v" "state v = Some fd" "validate_flight_details fd"
    and "parse_step ft qt bn now v child = Inr v'"
  shows "\<exists>a w. map_of (attrib child) ''name'' = Some a \<and> map_of (attrib child) ''width'' = Some w \<and>
           dfs v' = dfs v @ [create_flight_row (fd\<lparr>aircraft := Some a, width := Some w\<rparr>) (row v)] \<and>
           row v' = row v + 1 \<and> error_log v' = error_log v"
  using assms
  by (auto simp: parse_step_def Let_def handle_create_df_row_def update_flight_details_def
      update_aircraft_info_def validate_aircraft_upd
      split: option.splits)

lemma parse_step_aircraft_invalid:
  assumes "tag child = ''aircraft''" "started_yet v" "state v = Some fd" "\<not> validate_flight_details fd"
    and "parse_step ft qt bn now v child = Inr v'"
  shows "dfs v' = dfs v \<and> row v' = row v \<and>
         error_log v' = error_log v @ [''Skipping invalid row: Flight details are not valid'']"
  using assms
  by (auto simp: parse_step_def Let_def handle_create_df_row_def update_flight_details_def
      update_aircraft_info_def validate_aircraft_upd
      split: option.splits)

lemma parse_step_no_row:
  assumes "tag child \<noteq> ''aircraft'' \<or> \<not> started_yet v \<or> state v = None"
    and "parse_step ft qt bn now v child = Inr v'"
  shows "dfs v' = dfs v \<and> row v' = row v \<and> error_log v' = error_log v"
  using assms
  by (auto simp: parse_step_def Let_def handle_create_df_row_def
      split: option.splits if_splits sum.splits)

text \<open>
  C1. While \<open>parse_results\<close> walks a document that it parses to the end, the step at an
  element appends a row exactly when the element is an aircraft element, an accumulator is in
  progress, and origin, destination, flight id and carrier are non-empty strings and the
  itinerary id is not zero (the flight type, an enum member, is always true). The row is
  built from the accumulator and gets the current row counter, which then grows by one. When
  an accumulator is in progress and one of the fields is empty, no row is appended, one
  error line is logged, and the loop goes on with the next element. Rows once appended stay
  in the output.
\<close>

theorem C1_row_iff_required_fields:
  assumes "parse_results clock dicts doc ft qt bn = Inr fin"
    and "iter doc = pre @ child # post"
  shows "\<exists>v v'. parse_loop ft qt bn clock 0 (parse_init dicts) pre = Inr v \<and>
           parse_step ft qt bn (clock (length pre)) v child = Inr v' \<and>
           parse_loop ft qt bn clock (Suc (length pre)) v' post = Inr fin \<and>
           (\<exists>later. dfs fin = dfs v' @ later) \<and>
           (\<forall>fd. tag child = ''aircraft'' \<and> started_yet v \<and> state v = Some fd \<and>
                 origin fd \<noteq> None \<and> origin fd \<noteq> Some '''' \<and>
                 destination fd \<noteq> None \<and> destination fd \<noteq> Some '''' \<and>
                 f_id fd \<noteq> None \<and> f_id fd \<noteq> Some '''' \<and>
                 carrier fd \<noteq> None \<and> carrier fd \<noteq> Some '''' \<and> s_id fd \<noteq> 0 \<longrightarrow>
              (\<exists>a w. map_of (attrib child) ''name'' = Some a \<and>
                 map_of (attrib child) ''width'' = Some w \<and>
                 dfs v' = dfs v @
                   [create_flight_row (fd\<lparr>aircraft := Some a, width := Some w\<rparr>) (row v)] \<and>
                 row v' = row v + 1 \<and> error_log v' = error_log v)) \<and>
           (\<forall>fd. tag child = ''aircraft'' \<and> started_yet v \<and> state v = Some fd \<and>
                 (origin fd = None \<or> origin fd = Some '''' \<or>
                  destination fd = None \<or> destination fd = Some '''' \<or>
                  f_id fd = None \<or> f_id fd = Some '''' \<or>
                  carrier fd = None \<or> carrier fd = Some '''' \<or> s_id fd = 0) \<longrightarrow>
              dfs v' = dfs v \<and> row v' = row v \<and>
              error_log v' =
                error_log v @ [''Skipping invalid row: Flight details are not valid'']) \<and>
           (tag child \<noteq> ''aircraft'' \<or> \<not> started_yet v \<or> state v = None \<longrightarrow>
              dfs v' = dfs v \<and> row v' = row v \<and> error_log v' = error_log v)"
proof -
  from assms obtain v v' where
    pre: "parse_loop ft qt bn clock 0 (parse_init dicts) pre = Inr v"
    and step: "parse_step ft qt bn (clock (length pre)) v child = Inr v'"
    and post: "parse_loop ft qt bn clock (Suc (length pre)) v' post = Inr fin"
    unfolding parse_results_def by (auto elim: parse_loop_split)
  have valid: "validate_flight_details fd \<longleftrightarrow>
      origin fd \<noteq> None \<and> origin fd \<noteq> Some '''' \<and>
      destination fd \<noteq> None \<and> destination fd \<noteq> Some '''' \<and>
      f_id fd \<noteq> None \<and> f_id fd \<noteq> Some '''' \<and>
      carrier fd \<noteq> None \<and> carrier fd \<noteq> Some '''' \<and> s_id fd \<noteq> 0" for fd
    by (simp add: validate_flight_details_def truthy_str_iff truthy_enum_def truthy_int_def)
  have a: "\<exists>later. dfs fin = dfs v' @ later"
    using parse_loop_dfs_mono[OF post] .
  have b: "\<exists>a w. map_of (attrib child) ''name'' = Some a \<and>
        map_of (attrib child) ''width'' = Some w \<and>
        dfs v' = dfs v @ [create_flight_row (fd\<lparr>aircraft := Some a, width := Some w\<rparr>) (row v)] \<and>
        row v' = row v + 1 \<and> error_log v' = error_log v"
    if "tag child = ''aircraft''" "started_yet v" "state v = Some fd" "validate_flight_details fd"
    for fd
    using parse_step_aircraft_valid[OF that step] .
  have c: "dfs v' = dfs v \<and> row v' = row v \<and>
        error_log v' = error_log v @ [''Skipping invalid row: Flight details are not valid'']"
    if "tag child = ''aircraft''" "started_yet v" "state v = Some fd"
      "\<not> validate_flight_details fd" for fd
    using parse_step_aircraft_invalid[OF that step] .
  have d: "dfs v' = dfs v \<and> row v' = row v \<and> error_log v' = error_log v"
    if "tag child \<noteq> ''aircraft'' \<or> \<not> started_yet v \<or> state v = None"
    using parse_step_no_row[OF that step] .
  have b': "\<forall>fd. tag child = ''aircraft'' \<and> started_yet v \<and> state v = Some fd \<and>
                 origin fd \<noteq> None \<and> origin fd \<noteq> Some '''' \<and>
                 destination fd \<noteq> None \<and> destination fd \<noteq> Some '''' \<and>
                 f_id fd \<noteq> None \<and> f_id fd \<noteq> Some '''' \<and>
                 carrier fd \<noteq> None \<and> carrier fd \<noteq> Some '''' \<and> s_id fd \<noteq> 0 \<longrightarrow>
              (\<exists>a w. map_of (attrib child) ''name'' = Some a \<and>
                 map_of (attrib child) ''width'' = Some w \<and>
                 dfs v' = dfs v @
                   [create_flight_row (fd\<lparr>aircraft := Some a, width := Some w\<rparr>) (row v)] \<and>
                 row v' = row v + 1 \<and> error_log v' = error_log v)"
    using b valid by blast
  have c': "\<forall>fd. tag child = ''aircraft'' \<and> started_yet v \<and> state v = Some fd \<and>
                 (origin fd = None \<or> origin fd = Some '''' \<or>
                  destination fd = None \<or> destination fd = Some '''' \<or>
                  f_id fd = None \<or> f_id fd = Some '''' \<or>
                  carrier fd = None \<or> carrier fd = Some '''' \<or> s_id fd = 0) \<longrightarrow>
              dfs v' = dfs v \<and> row v' = row v \<and>
              error_log v' =
                error_log v @ [''Skipping invalid row: Flight details are not valid'']"
    using c valid by blast
  show ?thesis
    apply (rule exI[of _ v], rule exI[of _ v'])
    apply (intro conjI)
          apply (rule pre)
         apply (rule step)
        apply (rule post)
       apply (rule a)
      apply (rule b')
     apply (rule c')
    using d by blast
qed

theorem C1_row_iff_required_fields_witness:
  "\<exists>fin v v'.
     parse_results example_clock dictionaries_init example_doc FlightType_F ORIGIN 1 = Inr fin \<and>
     iter example_doc = take 5 (iter example_doc) @ (iter example_doc ! 5) # drop 6 (iter example_doc) \<and>
     tag (iter example_doc ! 5) = ''aircraft'' \<and>
     parse_loop FlightType_F ORIGIN 1 example_clock 0 (parse_init dictionaries_init)
       (take 5 (iter example_doc)) = Inr v \<and>
     parse_step FlightType_F ORIGIN 1 (example_clock 5) v (iter example_doc ! 5) = Inr v' \<and>
     dfs v = [] \<and> row v' = 1 \<and>
     map (map (Flight_No \<circ> snd)) (dfs v') = [[Some ''AA12'']]"
proof -
  obtain fin where h1:
    "parse_results example_clock dictionaries_init example_doc FlightType_F ORIGIN 1 = Inr fin"
    by (simp add: parser_defs example_doc_def)
  have h2: "iter example_doc =
      take 5 (iter example_doc) @ (iter example_doc ! 5) # drop 6 (iter example_doc)"
    by (simp add: example_doc_def)
  have h3: "tag (iter example_doc ! 5) = ''aircraft''"
    by (simp add: example_doc_def)
  from C1_row_iff_required_fields[OF h1 h2] obtain v v' where
    pre: "parse_loop FlightType_F ORIGIN 1 example_clock 0 (parse_init dictionaries_init)
       (take 5 (iter example_doc)) = Inr v"
    and step: "parse_step FlightType_F ORIGIN 1 (example_clock (length (take 5 (iter example_doc)))) v
       (iter example_doc ! 5) = Inr v'"
    and valid: "\<forall>fd. tag (iter example_doc ! 5) = ''aircraft'' \<and> started_yet v \<and> state v = Some fd \<and>
                 origin fd \<noteq> None \<and> origin fd \<noteq> Some '''' \<and>
                 destination fd \<noteq> None \<and> destination fd \<noteq> Some '''' \<and>
                 f_id fd \<noteq> None \<and> f_id fd \<noteq> Some '''' \<and>
                 carrier fd \<noteq> None \<and> carrier fd \<noteq> Some '''' \<and> s_id fd \<noteq> 0 \<longrightarrow>
              (\<exists>a w. map_of (attrib (iter example_doc ! 5)) ''name'' = Some a \<and>
                 map_of (attrib (iter example_doc ! 5)) ''width'' = Some w \<and>
                 dfs v' = dfs v @
                   [create_flight_row (fd\<lparr>aircraft := Some a, width := Some w\<rparr>) (row v)] \<and>
                 row v' = row v + 1 \<and> error_log v' = error_log v)"
    by blast
  have "length (take 5 (iter example_doc)) = 5"
    by (simp add: example_doc_def)
  with step have step': "parse_step FlightType_F ORIGIN 1 (example_clock 5) v
       (iter example_doc ! 5) = Inr v'"
    by simp
  from pre have v: "dfs v = [] \<and> row v = 0 \<and> started_yet v \<and>
      (\<exists>fd. state v = Some fd \<and> origin fd = Some ''JFK'' \<and> destination fd = Some ''LHR'' \<and>
         f_id fd = Some ''AA12'' \<and> carrier fd = Some ''AA'' \<and> s_id fd = 1)"
    by (auto simp: parser_defs example_doc_def)
  then obtain fd where fd: "state v = Some fd" "origin fd = Some ''JFK''"
    "destination fd = Some ''LHR''" "f_id fd = Some ''AA12''" "carrier fd = Some ''AA''"
    "s_id fd = 1"
    by blast
  from valid h3 v fd obtain a w where
    "dfs v' = dfs v @ [create_flight_row (fd\<lparr>aircraft := Some a, width := Some w\<rparr>) (row v)]"
    "row v' = row v + 1"
    by auto
  with v fd have r: "row v' = 1" and f: "map (map (Flight_No \<circ> snd)) (dfs v') = [[Some ''AA12'']]"
    by (simp_all add: create_flight_row_def)
  from v have e: "dfs v = []"
    by simp
  show ?thesis
    apply (rule exI[of _ fin], rule exI[of _ v], rule exI[of _ v'])
    apply (intro conjI)
           apply (rule h1)
          apply (rule h2)
         apply (rule h3)
        apply (rule pre)
       apply (rule step')
      apply (rule e)
     apply (rule r)
    apply (rule f)
    done
qed

text \<open>
  C6. If a leg element lacks any of the attributes origin, destination, departure, arrival,
  \<open>update_leg_info\<close> sets origin and destination of the accumulator to the empty string and
  both time fields to the one clock reading taken at that moment; if it has all four, it
  stores the four attribute values as they are. No other field changes.
\<close>

theorem C6_update_leg_info_policy:
  "(map_of (attrib child) ''origin'' = None \<or> map_of (attrib child) ''destination'' = None \<or>
    map_of (attrib child) ''departure'' = None \<or> map_of (attrib child) ''arrival'' = None \<longrightarrow>
      update_leg_info now child st =
        st\<lparr>origin := Some '''', destination := Some '''',
           depart_dt := Some (DtNow now), arrive_dt := Some (DtNow now)\<rparr>) \<and>
   (\<forall>orig dest dep arr.
      map_of (attrib child) ''origin'' = Some orig \<and>
      map_of (attrib child) ''destination'' = Some dest \<and>
      map_of (attrib child) ''departure'' = Some dep \<and>
      map_of (attrib child) ''arrival'' = Some arr \<longrightarrow>
      update_leg_info now child st =
        st\<lparr>origin := Some orig, destination := Some dest,
           depart_dt := Some (DtStr dep), arrive_dt := Some (DtStr arr)\<rparr>)"
  by (auto simp: update_leg_info_def leg_defaults_def split: option.splits)

theorem C6_update_leg_info_policy_witness:
  "map_of (attrib (Element ''leg'' [(''origin'', ''LHR'')] None [])) ''destination'' = None \<and>
   update_leg_info 7 (Element ''leg'' [(''origin'', ''LHR'')] None [])
       (new_flight_details FlightType_F ORIGIN 1 1) =
     (new_flight_details FlightType_F ORIGIN 1 1)
       \<lparr>origin := Some '''', destination := Some '''',
        depart_dt := Some (DtNow 7), arrive_dt := Some (DtNow 7)\<rparr> \<and>
   update_leg_info 7
       (Element ''leg'' [(''origin'', ''JFK''), (''destination'', ''LHR''),
          (''departure'', ''2024-01-01T10:00''), (''arrival'', ''2024-01-01T17:00'')] None [])
       (new_flight_details FlightType_F ORIGIN 1 1) =
     (new_flight_details FlightType_F ORIGIN 1 1)
       \<lparr>origin := Some ''JFK'', destination := Some ''LHR'',
        depart_dt := Some (DtStr ''2024-01-01T10:00''),
        arrive_dt := Some (DtStr ''2024-01-01T17:00'')\<rparr>"
  using C6_update_leg_info_policy[of "Element ''leg'' [(''origin'', ''LHR'')] None []" 7
      "new_flight_details FlightType_F ORIGIN 1 1"]
    C6_update_leg_info_policy[of "Element ''leg'' [(''origin'', ''JFK''), (''destination'', ''LHR''),
          (''departure'', ''2024-01-01T10:00''), (''arrival'', ''2024-01-01T17:00'')] None []" 7
      "new_flight_details FlightType_F ORIGIN 1 1"]
  by simp

subsection \<open>Rows have a non-empty origin\<close>

lemma parse_step_origins_ok:
  "parse_step ft qt bn now v child = Inr v' \<Longrightarrow> origins_ok (dfs v) \<Longrightarrow> origins_ok (dfs v')"
  by (auto simp: parse_step_def Let_def handle_create_df_row_def origins_ok_def
      create_flight_row_def validate_flight_details_def
      split: if_splits option.splits sum.splits py_error.splits)

lemma parse_loop_origins_ok:
  "parse_loop ft qt bn clock i v xs = Inr fin \<Longrightarrow> origins_ok (dfs v) \<Longrightarrow> origins_ok (dfs fin)"
proof (induction xs arbitrary: i v)
  case Nil
  then show ?case by simp
next
  case (Cons c xs)
  then obtain v' where s: "parse_step ft qt bn (clock i) v c = Inr v'"
    and l: "parse_loop ft qt bn clock (Suc i) v' xs = Inr fin"
    by (auto split: sum.splits)
  from parse_step_origins_ok[OF s Cons.prems(2)] Cons.IH[OF l] show ?case by simp
qed

lemma parse_results_origins_ok:
  "parse_results clock dicts doc ft qt bn = Inr fin \<Longrightarrow> origins_ok (dfs fin)"
  unfolding parse_results_def
  by (erule parse_loop_origins_ok) (simp add: origins_ok_def parse_init_def)

lemma set_pd_concat_ignore_index:
  "snd ` set (pd_concat_ignore_index frames) = snd ` (\<Union>f \<in> set frames. set f)"
proof -
  have "map snd (pd_concat_ignore_index frames) = concat (map (map snd) frames)"
    by (simp add: pd_concat_ignore_index_def Let_def)
  then have "set (map snd (pd_concat_ignore_index frames)) = set (concat (map (map snd) frames))"
    by simp
  then show ?thesis by auto
qed

lemma origins_ok_concat:
  assumes "origins_ok frames" and "(k, r) \<in> set (pd_concat_ignore_index frames)"
  shows "truthy_str (Origin r)"
proof -
  from assms(2) have "r \<in> snd ` set (pd_concat_ignore_index frames)"
    by force
  then obtain f k' where "f \<in> set frames" "(k', r) \<in> set f"
    unfolding set_pd_concat_ignore_index by auto
  with assms(1) show ?thesis
    by (auto simp: origins_ok_def)
qed

lemma origins_ok_initial_df:
  assumes "\<forall>v \<in> set outs. origins_ok (dfs v)" and "initial_df (all_dfs outs) = Some df"
    and "(k, r) \<in> set df"
  shows "truthy_str (Origin r)"
proof -
  have "origins_ok (all_dfs outs)"
    unfolding origins_ok_def all_dfs_def using assms(1) origins_ok_concat by fastforce
  with assms(2,3) show ?thesis
    by (auto simp: initial_df_def dest: origins_ok_concat split: if_splits)
qed

text \<open>
  C9. Every row that \<open>parse_results\<close> returns has an origin that is a non-empty string. So in
  the raw leg table built from the outputs of any calls of the parser, no row has the empty
  origin: \<open>clean_raw_flight_data\<close> counts zero such rows and returns the table unchanged.
\<close>

theorem C9_parser_rows_have_origin:
  assumes "\<forall>v \<in> set outs. \<exists>clock dicts doc ft qt bn. parse_results clock dicts doc ft qt bn = Inr v"
  shows "(\<forall>v \<in> set outs. \<forall>f \<in> set (dfs v). \<forall>(k, r) \<in> set f. \<exists>s. Origin r = Some s \<and> s \<noteq> '''') \<and>
         (\<forall>df. initial_df (all_dfs outs) = Some df \<longrightarrow>
            empty_origins df = 0 \<and> clean_raw_flight_data df = df)"
proof -
  from assms have ok: "\<forall>v \<in> set outs. origins_ok (dfs v)"
    using parse_results_origins_ok by blast
  have t: "truthy_str x \<Longrightarrow> \<exists>s. x = Some s \<and> s \<noteq> ''''" for x
    by (cases x) auto
  from ok have a: "\<forall>v \<in> set outs. \<forall>f \<in> set (dfs v). \<forall>(k, r) \<in> set f. \<exists>s. Origin r = Some s \<and> s \<noteq> ''''"
    unfolding origins_ok_def using t by fast
  have b: "empty_origins df = 0 \<and> clean_raw_flight_data df = df"
    if df: "initial_df (all_dfs outs) = Some df" for df
  proof -
    have n: "Origin r \<noteq> Some ''''" if "(k, r) \<in> set df" for k r
      using origins_ok_initial_df[OF ok df that] by auto
    then have "empty_origins df = 0"
      by (auto simp: empty_origins_def filter_empty_conv)
    moreover from n have "clean_raw_flight_data df = df"
      by (auto simp: clean_raw_flight_data_def filter_id_conv)
    ultimately show ?thesis
      by simp
  qed
  from a b show ?thesis by simp
qed

theorem C9_parser_rows_have_origin_witness:
  "\<exists>fin df. parse_results example_clock dictionaries_init example_doc FlightType_F ORIGIN 1 = Inr fin \<and>
     initial_df (all_dfs [fin]) = Some df \<and>
     map (Origin \<circ> snd) df = [Some ''JFK''] \<and>
     empty_origins df = 0 \<and> clean_raw_flight_data df = df"
proof -
  obtain fin where h:
    "parse_results example_clock dictionaries_init example_doc FlightType_F ORIGIN 1 = Inr fin"
    by (simp add: parser_defs example_doc_def)
  then obtain df where d: "initial_df (all_dfs [fin]) = Some df"
    and o: "map (Origin \<circ> snd) df = [Some ''JFK'']"
    by (auto simp: parser_defs example_doc_def initial_df_def all_dfs_def
        pd_concat_ignore_index_def)
  have "\<exists>clock dicts doc ft qt bn. parse_results clock dicts doc ft qt bn = Inr fin"
    by (intro exI) (rule h)
  then have "\<forall>v \<in> set [fin]. \<exists>clock dicts doc ft qt bn.
      parse_results clock dicts doc ft qt bn = Inr v"
    by simp
  from C9_parser_rows_have_origin[OF this] d
  have c: "empty_origins df = 0 \<and> clean_raw_flight_data df = df"
    by blast
  show ?thesis
    apply (rule exI[of _ fin], rule exI[of _ df])
    apply (intro conjI)
        apply (rule h)
       apply (rule d)
      apply (rule o)
     apply (rule c[THEN conjunct1])
    apply (rule c[THEN conjunct2])
    done
qed

subsection \<open>The accumulator between two solution elements\<close>

lemma update_flight_details_same_flight:
  assumes "update_flight_details now child fd = Inr fd'"
    and "tag child \<noteq> ''flight''" and "noleg \<longrightarrow> tag child \<noteq> ''leg''"
  shows "same_flight noleg fd fd'"
  using assms
  by (auto simp: update_flight_details_def update_aircraft_info_def update_leg_info_def
      leg_defaults_def same_flight_def split: if_splits option.splits)

lemma parse_step_same_flight:
  assumes "parse_step ft qt bn now v child = Inr v'"
    and "started_yet v" and "state v = Some fd"
    and "tag child \<noteq> ''flight''" and "tag child \<noteq> ''solution''"
    and "noleg \<longrightarrow> tag child \<noteq> ''leg''"
  shows "\<exists>new fd'. dfs v' = dfs v @ new \<and> state v' = Some fd' \<and> sol_id v' = sol_id v \<and>
           started_yet v' \<and> same_flight noleg fd fd' \<and> rows_of_flight noleg fd new"
proof -
  from assms(1,2,3,5) obtain fd' where u: "update_flight_details now child fd = Inr fd'"
    by (auto simp: parse_step_def Let_def split: sum.splits if_splits)
  from update_flight_details_same_flight[OF u assms(4,6)] have sf: "same_flight noleg fd fd'" .
  show ?thesis
  proof (cases "tag child = ''aircraft'' \<and> validate_flight_details fd'")
    case True
    with assms(1,2,3,5) u have "dfs v' = dfs v @ [create_flight_row fd' (row v)]"
      "state v' = Some fd'" "sol_id v' = sol_id v" "started_yet v'"
      by (auto simp: parse_step_def Let_def handle_create_df_row_def)
    moreover from sf have "rows_of_flight noleg fd [create_flight_row fd' (row v)]"
      by (auto simp: rows_of_flight_def same_flight_def create_flight_row_def)
    ultimately show ?thesis using sf by blast
  next
    case False
    with assms(1,2,3,5) u have "dfs v' = dfs v @ []"
      "state v' = Some fd'" "sol_id v' = sol_id v" "started_yet v'"
      by (auto simp: parse_step_def Let_def handle_create_df_row_def split: if_splits)
    moreover have "rows_of_flight noleg fd []"
      by (simp add: rows_of_flight_def)
    ultimately show ?thesis using sf by blast
  qed
qed

lemma same_flight_trans:
  "same_flight noleg a b \<Longrightarrow> same_flight noleg b c \<Longrightarrow> same_flight noleg a c"
  by (auto simp: same_flight_def)

lemma rows_of_flight_cong:
  "same_flight noleg a b \<Longrightarrow> rows_of_flight noleg b fs \<Longrightarrow> rows_of_flight noleg a fs"
  by (auto simp: same_flight_def rows_of_flight_def)

lemma rows_of_flight_append:
  "rows_of_flight noleg a fs \<Longrightarrow> rows_of_flight noleg a gs \<Longrightarrow> rows_of_flight noleg a (fs @ gs)"
  by (auto simp: rows_of_flight_def)

lemma parse_loop_same_flight:
  assumes "parse_loop ft qt bn clock i v cs = Inr fin"
    and "started_yet v" and "state v = Some fd"
    and "\<forall>c \<in> set cs. tag c \<noteq> ''flight'' \<and> tag c \<noteq> ''solution''"
    and "noleg \<longrightarrow> (\<forall>c \<in> set cs. tag c \<noteq> ''leg'')"
  shows "\<exists>new fd'. dfs fin = dfs v @ new \<and> state fin = Some fd' \<and> sol_id fin = sol_id v \<and>
           started_yet fin \<and> same_flight noleg fd fd' \<and> rows_of_flight noleg fd new"
  using assms
proof (induction cs arbitrary: i v fd)
  case Nil
  then show ?case
    by (auto simp: same_flight_def rows_of_flight_def)
next
  case (Cons c cs)
  from Cons.prems(1) obtain w where s: "parse_step ft qt bn (clock i) v c = Inr w"
    and l: "parse_loop ft qt bn clock (Suc i) w cs = Inr fin"
    by (auto split: sum.splits)
  from Cons.prems(4,5) have c: "tag c \<noteq> ''flight''" "tag c \<noteq> ''solution''"
    "noleg \<longrightarrow> tag c \<noteq> ''leg''"
    by auto
  from parse_step_same_flight[OF s Cons.prems(2,3) c] obtain n1 fd1 where
    w: "dfs w = dfs v @ n1" "state w = Some fd1" "sol_id w = sol_id v" "started_yet w"
    "same_flight noleg fd fd1" "rows_of_flight noleg fd n1"
    by blast
  from Cons.prems(4,5) have r: "\<forall>c \<in> set cs. tag c \<noteq> ''flight'' \<and> tag c \<noteq> ''solution''"
    "noleg \<longrightarrow> (\<forall>c \<in> set cs. tag c \<noteq> ''leg'')"
    by auto
  from Cons.IH[OF l w(4) w(2) r] obtain n2 fd2 where
    f: "dfs fin = dfs w @ n2" "state fin = Some fd2" "sol_id fin = sol_id w" "started_yet fin"
    "same_flight noleg fd1 fd2" "rows_of_flight noleg fd1 n2"
    by blast
  have "dfs fin = dfs v @ (n1 @ n2)"
    using w(1) f(1) by simp
  moreover have "same_flight noleg fd fd2"
    using same_flight_trans[OF w(5) f(5)] .
  moreover have "rows_of_flight noleg fd (n1 @ n2)"
    using rows_of_flight_append[OF w(6) rows_of_flight_cong[OF w(5) f(6)]] .
  ultimately show ?case
    using f(2,3,4) w(3) by auto
qed

lemma parse_step_solution:
  assumes "parse_step ft qt bn now v s = Inr v'" and "started_yet v" and "tag s = ''solution''"
  shows "state v' = Some (new_flight_details ft qt bn (sol_id v + 1)) \<and> dfs v' = dfs v \<and>
         sol_id v' = sol_id v + 1"
  using assms
  by (auto simp: parse_step_def Let_def update_flight_details_def handle_create_df_row_def
      split: if_splits)

text \<open>
  C10. Let an accumulator be in progress, and let the parser then process elements none of
  which is a flight or a solution element (so: any number of leg, aircraft and other
  elements). Every row appended on the way carries the flight number, the carrier code and
  the itinerary id that the accumulator held at the start, and the accumulator still holds
  them at the end; if no leg element occurs either, origin, destination and both times are
  retained as well, in the accumulator and in the rows. The itinerary counter does not move.
  The next solution element replaces the accumulator by a fresh one, all fields \<open>None\<close>,
  with the next itinerary id.
\<close>

theorem C10_accumulator_kept_within_itinerary:
  assumes "started_yet v" and "state v = Some fd"
    and "\<forall>c \<in> set cs. tag c \<noteq> ''flight'' \<and> tag c \<noteq> ''solution''"
    and "parse_loop ft qt bn clock i v cs = Inr fin"
    and "tag s = ''solution''"
    and "parse_step ft qt bn now fin s = Inr v'"
  shows "\<exists>new fd'. dfs fin = dfs v @ new \<and> state fin = Some fd' \<and> sol_id fin = sol_id v \<and>
           f_id fd' = f_id fd \<and> carrier fd' = carrier fd \<and> s_id fd' = s_id fd \<and>
           (\<forall>f \<in> set new. \<forall>(k, r) \<in> set f.
              Flight_No r = f_id fd \<and> Airline_Code r = carrier fd \<and> Solution_ID r = s_id fd) \<and>
           ((\<forall>c \<in> set cs. tag c \<noteq> ''leg'') \<longrightarrow>
              origin fd' = origin fd \<and> destination fd' = destination fd \<and>
              depart_dt fd' = depart_dt fd \<and> arrive_dt fd' = arrive_dt fd \<and>
              (\<forall>f \<in> set new. \<forall>(k, r) \<in> set f.
                 Origin r = origin fd \<and> Destination r = destination fd \<and>
                 Departure_Time r = depart_dt fd \<and> Arrival_Time r = arrive_dt fd)) \<and>
           state v' = Some (new_flight_details ft qt bn (sol_id v + 1)) \<and> dfs v' = dfs fin"
proof -
  let ?noleg = "\<forall>c \<in> set cs. tag c \<noteq> ''leg''"
  have "?noleg \<longrightarrow> (\<forall>c \<in> set cs. tag c \<noteq> ''leg'')"
    by simp
  from parse_loop_same_flight[OF assms(4,1,2,3) this] obtain new fd' where
    f: "dfs fin = dfs v @ new" "state fin = Some fd'" "sol_id fin = sol_id v" "started_yet fin"
    "same_flight ?noleg fd fd'" "rows_of_flight ?noleg fd new"
    by blast
  from parse_step_solution[OF assms(6) f(4) assms(5)] f(3)
  have s: "state v' = Some (new_flight_details ft qt bn (sol_id v + 1))" "dfs v' = dfs fin"
    by simp_all
  from f(5) have a: "f_id fd' = f_id fd" "carrier fd' = carrier fd" "s_id fd' = s_id fd"
    and a': "?noleg \<longrightarrow> origin fd' = origin fd \<and> destination fd' = destination fd \<and>
              depart_dt fd' = depart_dt fd \<and> arrive_dt fd' = arrive_dt fd"
    by (simp_all add: same_flight_def)
  from f(6) have b: "\<forall>f \<in> set new. \<forall>(k, r) \<in> set f.
              Flight_No r = f_id fd \<and> Airline_Code r = carrier fd \<and> Solution_ID r = s_id fd"
    and b': "?noleg \<longrightarrow> (\<forall>f \<in> set new. \<forall>(k, r) \<in> set f.
                 Origin r = origin fd \<and> Destination r = destination fd \<and>
                 Departure_Time r = depart_dt fd \<and> Arrival_Time r = arrive_dt fd)"
    unfolding rows_of_flight_def by fast+
  from a' b' have c: "?noleg \<longrightarrow>
              origin fd' = origin fd \<and> destination fd' = destination fd \<and>
              depart_dt fd' = depart_dt fd \<and> arrive_dt fd' = arrive_dt fd \<and>
              (\<forall>f \<in> set new. \<forall>(k, r) \<in> set f.
                 Origin r = origin fd \<and> Destination r = destination fd \<and>
                 Departure_Time r = depart_dt fd \<and> Arrival_Time r = arrive_dt fd)"
    by simp
  show ?thesis
    apply (rule exI[of _ new], rule exI[of _ fd'])
    apply (intro conjI)
             apply (rule f(1))
            apply (rule f(2))
           apply (rule f(3))
          apply (rule a(1))
         apply (rule a(2))
        apply (rule a(3))
       apply (rule b)
      apply (rule c)
     apply (rule s(1))
    apply (rule s(2))
    done
qed

theorem C10_accumulator_kept_within_itinerary_witness:
  "\<exists>v fd fin v'.
     parse_loop FlightType_F ORIGIN 1 example_clock 0 (parse_init dictionaries_init)
       (take 4 (iter example_doc2)) = Inr v \<and>
     started_yet v \<and> state v = Some fd \<and> f_id fd = Some ''AA12'' \<and>
     (\<forall>c \<in> set (drop 4 (iter example_doc2)). tag c \<noteq> ''flight'' \<and> tag c \<noteq> ''solution'') \<and>
     parse_loop FlightType_F ORIGIN 1 example_clock 4 v (drop 4 (iter example_doc2)) = Inr fin \<and>
     parse_step FlightType_F ORIGIN 1 1007 fin (Element ''solution'' [] None []) = Inr v' \<and>
     (\<exists>new. dfs fin = dfs v @ new \<and> length new = 2 \<and>
        (\<forall>f \<in> set new. \<forall>(k, r) \<in> set f.
           Flight_No r = Some ''AA12'' \<and> Airline_Code r = Some ''AA'' \<and> Solution_ID r = 1)) \<and>
     state v' = Some (new_flight_details FlightType_F ORIGIN 1 2)"
proof -
  obtain v where v: "parse_loop FlightType_F ORIGIN 1 example_clock 0
      (parse_init dictionaries_init) (take 4 (iter example_doc2)) = Inr v"
    by (simp add: parser_defs example_doc2_def)
  then have sv: "started_yet v" and dv: "dfs v = []" and iv: "sol_id v = 1"
    by (auto simp: parser_defs example_doc2_def)
  from v obtain fd where fd: "state v = Some fd" "f_id fd = Some ''AA12''"
    "carrier fd = Some ''AA''" "s_id fd = 1"
    by (auto simp: parser_defs example_doc2_def)
  have cs: "\<forall>c \<in> set (drop 4 (iter example_doc2)). tag c \<noteq> ''flight'' \<and> tag c \<noteq> ''solution''"
    by (simp add: example_doc2_def)
  from v obtain fin where fin: "parse_loop FlightType_F ORIGIN 1 example_clock 4 v
      (drop 4 (iter example_doc2)) = Inr fin"
    by (auto simp: parser_defs example_doc2_def example_clock_def)
  with v have lf: "length (dfs fin) = 2"
    by (auto simp: parser_defs example_doc2_def example_clock_def)
  have tg: "tag (Element ''solution'' [] None []) = ''solution''"
    by simp
  from v fin obtain v' where
    v': "parse_step FlightType_F ORIGIN 1 1007 fin (Element ''solution'' [] None []) = Inr v'"
    by (auto simp: parser_defs example_doc2_def example_clock_def)
  from C10_accumulator_kept_within_itinerary[OF sv fd(1) cs fin tg v']
  obtain new where n: "dfs fin = dfs v @ new"
    "\<forall>f \<in> set new. \<forall>(k, r) \<in> set f.
       Flight_No r = f_id fd \<and> Airline_Code r = carrier fd \<and> Solution_ID r = s_id fd"
    "state v' = Some (new_flight_details FlightType_F ORIGIN 1 (sol_id v + 1))"
    by blast
  from n(1) dv lf have ln: "length new = 2"
    by simp
  from n(2) fd have r: "\<forall>f \<in> set new. \<forall>(k, r) \<in> set f.
       Flight_No r = Some ''AA12'' \<and> Airline_Code r = Some ''AA'' \<and> Solution_ID r = 1"
    by simp
  from n(3) iv have s: "state v' = Some (new_flight_details FlightType_F ORIGIN 1 2)"
    by simp
  have e: "\<exists>new. dfs fin = dfs v @ new \<and> length new = 2 \<and>
        (\<forall>f \<in> set new. \<forall>(k, r) \<in> set f.
           Flight_No r = Some ''AA12'' \<and> Airline_Code r = Some ''AA'' \<and> Solution_ID r = 1)"
    apply (rule exI[of _ new])
    apply (intro conjI)
      apply (rule n(1))
     apply (rule ln)
    apply (rule r)
    done
  show ?thesis
    apply (rule exI[of _ v], rule exI[of _ fd], rule exI[of _ fin], rule exI[of _ v'])
    apply (intro conjI)
            apply (rule v)
           apply (rule sv)
          apply (rule fd(1))
         apply (rule fd(2))
        apply (rule cs)
       apply (rule fin)
      apply (rule v')
     apply (rule e)
    apply (rule s)
    done
qed

subsection \<open>Elements before the first itinerary\<close>

lemma parse_step_dictionaries:
  "parse_step ft qt bn now v child = Inr v' \<Longrightarrow>
     dictionaries v' = process_dict_updates (dictionaries v) child"
  by (auto simp: parse_step_def Let_def split: if_splits option.splits sum.splits py_error.splits)

lemma parse_step_dictionaries_raise:
  "parse_step ft qt bn now v child = Inl (e, d) \<Longrightarrow>
     d = process_dict_updates (dictionaries v) child"
  by (auto simp: parse_step_def Let_def split: if_splits option.splits sum.splits py_error.splits)

lemma parse_loop_dictionaries:
  "parse_loop ft qt bn clock i v xs = Inr fin \<Longrightarrow>
     dictionaries fin = fold (\<lambda>c d. process_dict_updates d c) xs (dictionaries v)"
proof (induction xs arbitrary: i v)
  case Nil
  then show ?case by simp
next
  case (Cons c xs)
  then obtain v' where s: "parse_step ft qt bn (clock i) v c = Inr v'"
    and l: "parse_loop ft qt bn clock (Suc i) v' xs = Inr fin"
    by (auto split: sum.splits)
  from Cons.IH[OF l] parse_step_dictionaries[OF s] show ?case by simp
qed

lemma parse_step_seeking:
  assumes "\<not> started_yet v" and "tag child \<noteq> ''itineraryFullDetail''"
  shows "parse_step ft qt bn now v child =
           Inr (v\<lparr>dictionaries := process_dict_updates (dictionaries v) child\<rparr>)"
  using assms by (simp add: parse_step_def Let_def)

lemma parse_step_no_itinerary:
  assumes "state v = None" and "tag child \<noteq> ''solution''"
    and "started_yet v \<or> tag child = ''itineraryFullDetail''"
  shows "parse_step ft qt bn now v child =
           Inr (v\<lparr>dictionaries := process_dict_updates (dictionaries v) child,
                  started_yet := True\<rparr>)"
  using assms by (auto simp: parse_step_def Let_def)

lemma parse_loop_seeking:
  assumes "\<not> started_yet v" and "\<forall>c \<in> set xs. tag c \<noteq> ''itineraryFullDetail''"
  shows "parse_loop ft qt bn clock i v xs =
           Inr (v\<lparr>dictionaries := fold (\<lambda>c d. process_dict_updates d c) xs (dictionaries v)\<rparr>)"
  using assms
proof (induction xs arbitrary: i v)
  case Nil
  then show ?case by simp
next
  case (Cons c xs)
  then show ?case
    by (simp add: parse_step_seeking)
qed

lemma parse_loop_no_itinerary:
  assumes "state v = None" and "\<forall>c \<in> set xs. tag c \<noteq> ''solution''"
  shows "parse_loop ft qt bn clock i v xs =
           Inr (v\<lparr>dictionaries := fold (\<lambda>c d. process_dict_updates d c) xs (dictionaries v),
                  started_yet := started_yet v \<or> (\<exists>c \<in> set xs. tag c = ''itineraryFullDetail'')\<rparr>)"
  using assms
proof (induction xs arbitrary: i v)
  case Nil
  then show ?case by simp
next
  case (Cons c xs)
  show ?case
  proof (cases "started_yet v \<or> tag c = ''itineraryFullDetail''")
    case True
    with Cons.prems have s: "parse_step ft qt bn (clock i) v c =
        Inr (v\<lparr>dictionaries := process_dict_updates (dictionaries v) c, started_yet := True\<rparr>)"
      by (intro parse_step_no_itinerary) auto
    show ?thesis
      using True Cons.prems by (auto simp: s Cons.IH)
  next
    case False
    with Cons.prems have s: "parse_step ft qt bn (clock i) v c =
        Inr (v\<lparr>dictionaries := process_dict_updates (dictionaries v) c\<rparr>)"
      by (intro parse_step_seeking) auto
    show ?thesis
      using False Cons.prems by (auto simp: s Cons.IH)
  qed
qed

text \<open>
  C7. Take the elements up to the first solution element that follows the results-start
  marker: first elements none of which is the marker, then elements none of which is a
  solution element. The parser never raises on them and comes out of them with no row, both
  counters at zero, no accumulator and nothing logged: only the reference accumulators have
  changed (by \<open>process_dict_updates\<close> at each element in turn), and the started flag is set
  iff the marker was among them. Whatever follows is therefore parsed from that state. And in
  every parse that returns, the reference accumulators are those of \<open>process_dict_updates\<close>
  folded over all elements of the document, whatever the parser state was at each.
\<close>

theorem C7_prefix_only_reference_data:
  assumes "\<forall>c \<in> set before. tag c \<noteq> ''itineraryFullDetail''"
    and "\<forall>c \<in> set after. tag c \<noteq> ''solution''"
  shows "parse_loop ft qt bn clock 0 (parse_init dicts) (before @ after) =
           Inr \<lparr>dfs = [], sol_id = 0, row = 0,
                started_yet = (\<exists>c \<in> set after. tag c = ''itineraryFullDetail''),
                state = None,
                dictionaries = fold (\<lambda>c d. process_dict_updates d c) (before @ after) dicts,
                error_log = []\<rparr> \<and>
         parse_loop ft qt bn clock 0 (parse_init dicts) (before @ after @ rest) =
           parse_loop ft qt bn clock (length before + length after)
             \<lparr>dfs = [], sol_id = 0, row = 0,
              started_yet = (\<exists>c \<in> set after. tag c = ''itineraryFullDetail''),
              state = None,
              dictionaries = fold (\<lambda>c d. process_dict_updates d c) (before @ after) dicts,
              error_log = []\<rparr> rest \<and>
         (\<forall>fin. parse_loop ft qt bn clock 0 (parse_init dicts) (before @ after @ rest) = Inr fin \<longrightarrow>
            dictionaries fin =
              fold (\<lambda>c d. process_dict_updates d c) (before @ after @ rest) dicts)"
proof -
  let ?mid = "(parse_init dicts)\<lparr>dictionaries :=
      fold (\<lambda>c d. process_dict_updates d c) before (dictionaries (parse_init dicts))\<rparr>"
  have b: "parse_loop ft qt bn clock 0 (parse_init dicts) before = Inr ?mid"
    using assms(1) by (intro parse_loop_seeking) (simp_all add: parse_init_def)
  have "state ?mid = None"
    by (simp add: parse_init_def)
  from parse_loop_no_itinerary[OF this assms(2), of ft qt bn clock "length before"]
  have a: "parse_loop ft qt bn clock (length before) ?mid after =
      Inr \<lparr>dfs = [], sol_id = 0, row = 0,
                started_yet = (\<exists>c \<in> set after. tag c = ''itineraryFullDetail''),
                state = None,
                dictionaries = fold (\<lambda>c d. process_dict_updates d c) (before @ after) dicts,
                error_log = []\<rparr>"
    by (simp add: parse_init_def)
  have one: "parse_loop ft qt bn clock 0 (parse_init dicts) (before @ after) =
           Inr \<lparr>dfs = [], sol_id = 0, row = 0,
                started_yet = (\<exists>c \<in> set after. tag c = ''itineraryFullDetail''),
                state = None,
                dictionaries = fold (\<lambda>c d. process_dict_updates d c) (before @ after) dicts,
                error_log = []\<rparr>"
    by (simp add: parse_loop_append b a)
  have "parse_loop ft qt bn clock 0 (parse_init dicts) ((before @ after) @ rest) =
           parse_loop ft qt bn clock (length before + length after)
             \<lparr>dfs = [], sol_id = 0, row = 0,
              started_yet = (\<exists>c \<in> set after. tag c = ''itineraryFullDetail''),
              state = None,
              dictionaries = fold (\<lambda>c d. process_dict_updates d c) (before @ after) dicts,
              error_log = []\<rparr> rest"
    unfolding parse_loop_append[of _ _ _ _ _ _ "before @ after" rest] one by simp
  then have two: "parse_loop ft qt bn clock 0 (parse_init dicts) (before @ after @ rest) =
           parse_loop ft qt bn clock (length before + length after)
             \<lparr>dfs = [], sol_id = 0, row = 0,
              started_yet = (\<exists>c \<in> set after. tag c = ''itineraryFullDetail''),
              state = None,
              dictionaries = fold (\<lambda>c d. process_dict_updates d c) (before @ after) dicts,
              error_log = []\<rparr> rest"
    by simp
  have three: "\<forall>fin. parse_loop ft qt bn clock 0 (parse_init dicts) (before @ after @ rest) = Inr fin \<longrightarrow>
            dictionaries fin =
              fold (\<lambda>c d. process_dict_updates d c) (before @ after @ rest) dicts"
    using parse_loop_dictionaries[of ft qt bn clock 0 "parse_init dicts" "before @ after @ rest"]
    by (simp add: parse_init_def)
  from one two three show ?thesis
    by (intro conjI)
qed

theorem C7_prefix_only_reference_data_witness:
  "list_all (\<lambda>c. tag c \<noteq> ''itineraryFullDetail'') (take 3 (iter example_doc3)) \<and>
   list_all (\<lambda>c. tag c \<noteq> ''solution'') (take 3 (drop 3 (iter example_doc3))) \<and>
   map tag (take 6 (iter example_doc3)) =
     [''result'', ''airport'', ''solution'', ''itineraryFullDetail'', ''city'', ''aircraft''] \<and>
   parse_loop FlightType_F ORIGIN 1 example_clock 0 (parse_init dictionaries_init)
       (take 6 (iter example_doc3)) =
     Inr \<lparr>dfs = [], sol_id = 0, row = 0, started_yet = True, state = None,
          dictionaries =
            [(''carrier'', [(''code'', []), (''name'', []), (''shortName'', [])]),
             (''city'', [(''code'', [''NYC'']), (''country'', [''US'']), (''name'', [])]),
             (''airport'', [(''city'', [''NYC'']), (''code'', [''JFK'']), (''latitude'', []),
                (''longitude'', []), (''name'', [])]),
             (''aircraft'', [(''code'', []), (''name'', [''B777'']), (''width'', [''wide''])])],
          error_log = []\<rparr>"
proof -
  have h1: "\<forall>c \<in> set (take 3 (iter example_doc3)). tag c \<noteq> ''itineraryFullDetail''"
    by (simp add: example_doc3_def)
  have h2: "\<forall>c \<in> set (take 3 (drop 3 (iter example_doc3))). tag c \<noteq> ''solution''"
    by (simp add: example_doc3_def)
  have t: "map tag (take 6 (iter example_doc3)) =
     [''result'', ''airport'', ''solution'', ''itineraryFullDetail'', ''city'', ''aircraft'']"
    by (simp add: example_doc3_def)
  have s: "take 3 (iter example_doc3) @ take 3 (drop 3 (iter example_doc3)) =
      take 6 (iter example_doc3)"
    by (simp add: example_doc3_def)
  have m: "(\<exists>c \<in> set (take 3 (drop 3 (iter example_doc3))). tag c = ''itineraryFullDetail'') = True"
    by (simp add: example_doc3_def)
  have d: "fold (\<lambda>c d. process_dict_updates d c) (take 6 (iter example_doc3)) dictionaries_init =
      [(''carrier'', [(''code'', []), (''name'', []), (''shortName'', [])]),
             (''city'', [(''code'', [''NYC'']), (''country'', [''US'']), (''name'', [])]),
             (''airport'', [(''city'', [''NYC'']), (''code'', [''JFK'']), (''latitude'', []),
                (''longitude'', []), (''name'', [])]),
             (''aircraft'', [(''code'', []), (''name'', [''B777'']), (''width'', [''wide''])])]"
    by (simp add: example_doc3_def parser_defs)
  from C7_prefix_only_reference_data[OF h1 h2, of FlightType_F ORIGIN 1 example_clock
      dictionaries_init "[]"]
  have "parse_loop FlightType_F ORIGIN 1 example_clock 0 (parse_init dictionaries_init)
       (take 6 (iter example_doc3)) =
     Inr \<lparr>dfs = [], sol_id = 0, row = 0, started_yet = True, state = None,
          dictionaries =
            [(''carrier'', [(''code'', []), (''name'', []), (''shortName'', [])]),
             (''city'', [(''code'', [''NYC'']), (''country'', [''US'']), (''name'', [])]),
             (''airport'', [(''city'', [''NYC'']), (''code'', [''JFK'']), (''latitude'', []),
                (''longitude'', []), (''name'', [])]),
             (''aircraft'', [(''code'', []), (''name'', [''B777'']), (''width'', [''wide''])])],
          error_log = []\<rparr>"
    unfolding s m d by simp
  moreover from h1 have "list_all (\<lambda>c. tag c \<noteq> ''itineraryFullDetail'') (take 3 (iter example_doc3))"
    by (simp only: list_all_iff)
  moreover from h2 have "list_all (\<lambda>c. tag c \<noteq> ''solution'') (take 3 (drop 3 (iter example_doc3)))"
    by (simp only: list_all_iff)
  ultimately show ?thesis
    using t by (intro conjI)
qed

subsection \<open>Two runs on the same document\<close>

lemma acc_agree_refl: "acc_agree a a"
  by (simp add: acc_agree_def)

lemma update_flight_details_agree:
  assumes "acc_agree a b"
  shows "rel_sum (=) acc_agree (update_flight_details n1 child a) (update_flight_details n2 child b)"
  using assms
  by (auto simp: update_flight_details_def update_flight_info_def update_aircraft_info_def
      update_leg_info_def leg_defaults_def acc_agree_def split: option.splits)

lemma validate_agree: "acc_agree a b \<Longrightarrow> validate_flight_details a = validate_flight_details b"
  by (simp add: validate_flight_details_def acc_agree_def)

lemma create_flight_row_agree:
  "acc_agree a b \<Longrightarrow> validate_flight_details a \<Longrightarrow> create_flight_row a r = create_flight_row b r"
  by (simp add: validate_flight_details_def acc_agree_def create_flight_row_def)

lemma handle_create_df_row_agree:
  "acc_agree a b \<Longrightarrow> handle_create_df_row child a r = handle_create_df_row child b r"
  using validate_agree[of a b] create_flight_row_agree[of a b r]
  by (auto simp: handle_create_df_row_def)

lemma step_tail_agree:
  assumes "vars_agree v3 w3"
  shows "rel_sum (\<lambda>x y. fst x = fst y) vars_agree
      (case state v3 of None \<Rightarrow> Inr v3
         | Some st \<Rightarrow>
            (case update_flight_details na child st of
               Inl e \<Rightarrow> Inl (e, dictionaries v3)
             | Inr st' \<Rightarrow>
                (case handle_create_df_row child st' (row v3) of
                   Inr (Some df) \<Rightarrow>
                     Inr (v3\<lparr>state := Some st', dfs := dfs v3 @ [df], row := row v3 + 1\<rparr>)
                 | Inr None \<Rightarrow> Inr (v3\<lparr>state := Some st'\<rparr>)
                 | Inl (ValueError e) \<Rightarrow>
                     Inr (v3\<lparr>state := Some st',
                            error_log := error_log v3 @ [''Skipping invalid row: '' @ e]\<rparr>)
                 | Inl e \<Rightarrow> Inl (e, dictionaries v3))))
      (case state w3 of None \<Rightarrow> Inr w3
         | Some st \<Rightarrow>
            (case update_flight_details nb child st of
               Inl e \<Rightarrow> Inl (e, dictionaries w3)
             | Inr st' \<Rightarrow>
                (case handle_create_df_row child st' (row w3) of
                   Inr (Some df) \<Rightarrow>
                     Inr (w3\<lparr>state := Some st', dfs := dfs w3 @ [df], row := row w3 + 1\<rparr>)
                 | Inr None \<Rightarrow> Inr (w3\<lparr>state := Some st'\<rparr>)
                 | Inl (ValueError e) \<Rightarrow>
                     Inr (w3\<lparr>state := Some st',
                            error_log := error_log w3 @ [''Skipping invalid row: '' @ e]\<rparr>)
                 | Inl e \<Rightarrow> Inl (e, dictionaries w3))))"
proof (cases "state v3")
  case None
  with assms have "state w3 = None"
    by (simp add: vars_agree_def)
  with None assms show ?thesis
    by simp
next
  case (Some a)
  with assms obtain b where b: "state w3 = Some b" and ab: "acc_agree a b"
    by (auto simp: vars_agree_def option_rel_Some1)
  from assms have eq: "dfs v3 = dfs w3" "row v3 = row w3" "sol_id v3 = sol_id w3"
    "started_yet v3 = started_yet w3" "error_log v3 = error_log w3"
    by (simp_all add: vars_agree_def)
  note u = update_flight_details_agree[OF ab, of na child nb]
  show ?thesis
  proof (cases "update_flight_details na child a")
    case (Inl e)
    with u obtain e' where "update_flight_details nb child b = Inl e'" "e = e'"
      by (cases "update_flight_details nb child b") auto
    with Inl Some b show ?thesis
      by simp
  next
    case (Inr a')
    with u obtain b' where ub: "update_flight_details nb child b = Inr b'"
      and ab': "acc_agree a' b'"
      by (cases "update_flight_details nb child b") auto
    from handle_create_df_row_agree[OF ab', of child "row w3"]
    have h: "handle_create_df_row child a' (row v3) = handle_create_df_row child b' (row w3)"
      using eq by simp
    show ?thesis
      unfolding Some b Inr ub h option.case sum.case
      using eq ab'
      by (auto simp: vars_agree_def split: sum.splits option.splits py_error.splits)
  qed
qed

lemma parse_step_agree:
  assumes "vars_agree v w"
  shows "rel_sum (\<lambda>x y. fst x = fst y) vars_agree
           (parse_step ft qt bn n1 v child) (parse_step ft qt bn n2 w child)"
proof -
  from assms have st: "started_yet v = started_yet w" and si: "sol_id v = sol_id w"
    by (simp_all add: vars_agree_def)
  consider (marker) "tag child = ''itineraryFullDetail''"
    | (solution) "tag child = ''solution''"
    | (other) "tag child \<noteq> ''itineraryFullDetail''" "tag child \<noteq> ''solution''"
    by blast
  then show ?thesis
  proof cases
    case marker
    from assms have "vars_agree
        (v\<lparr>dictionaries := process_dict_updates (dictionaries v) child, started_yet := True\<rparr>)
        (w\<lparr>dictionaries := process_dict_updates (dictionaries w) child, started_yet := True\<rparr>)"
      by (simp add: vars_agree_def)
    from step_tail_agree[OF this, where na = n1 and child = child and nb = n2] marker show ?thesis
      by (simp add: parse_step_def Let_def)
  next
    case solution
    show ?thesis
    proof (cases "started_yet v")
      case True
      from assms have "vars_agree
        (v\<lparr>dictionaries := process_dict_updates (dictionaries v) child,
           sol_id := sol_id v + 1,
           state := Some (new_flight_details ft qt bn (sol_id v + 1))\<rparr>)
        (w\<lparr>dictionaries := process_dict_updates (dictionaries w) child,
           sol_id := sol_id w + 1,
           state := Some (new_flight_details ft qt bn (sol_id w + 1))\<rparr>)"
        by (simp add: vars_agree_def acc_agree_refl)
      from step_tail_agree[OF this, where na = n1 and child = child and nb = n2] solution True st show ?thesis
        by (simp add: parse_step_def Let_def)
    next
      case False
      with assms solution st show ?thesis
        by (simp add: parse_step_def Let_def vars_agree_def)
    qed
  next
    case other
    show ?thesis
    proof (cases "started_yet v")
      case True
      from assms have "vars_agree
        (v\<lparr>dictionaries := process_dict_updates (dictionaries v) child\<rparr>)
        (w\<lparr>dictionaries := process_dict_updates (dictionaries w) child\<rparr>)"
        by (simp add: vars_agree_def)
      from step_tail_agree[OF this, where na = n1 and child = child and nb = n2] other True st show ?thesis
        by (simp add: parse_step_def Let_def)
    next
      case False
      with assms other st show ?thesis
        by (simp add: parse_step_def Let_def vars_agree_def)
    qed
  qed
qed

lemma parse_loop_agree:
  assumes "vars_agree v w"
  shows "rel_sum (\<lambda>x y. fst x = fst y) vars_agree
           (parse_loop ft qt bn clock1 i v xs) (parse_loop ft qt bn clock2 j w xs)"
  using assms
proof (induction xs arbitrary: i j v w)
  case Nil
  then show ?case by simp
next
  case (Cons c xs)
  note s = parse_step_agree[OF Cons.prems, of ft qt bn "clock1 i" c "clock2 j"]
  show ?case
  proof (cases "parse_step ft qt bn (clock1 i) v c")
    case (Inl a)
    with s show ?thesis
      by (cases "parse_step ft qt bn (clock2 j) w c") auto
  next
    case (Inr v')
    with s obtain w' where w': "parse_step ft qt bn (clock2 j) w c = Inr w'"
      and vw: "vars_agree v' w'"
      by (cases "parse_step ft qt bn (clock2 j) w c") auto
    from Cons.IH[OF vw, of "Suc i" "Suc j"] Inr w' show ?thesis
      by simp
  qed
qed

text \<open>
  C5. Two calls of \<open>parse_results\<close> on the same document with the same flight type, query type
  and batch number give the same outcome, whatever the clock shows during either call and
  whatever the reference accumulators hold when either starts (in particular when they were
  reset to empty before both): either both raise the same exception, or both return, with the
  same list of frames, the same row counter and the same itinerary counter.
\<close>

theorem C5_parser_deterministic:
  "map_sum fst parse_output (parse_results clock1 dicts1 doc ft qt bn) =
   map_sum fst parse_output (parse_results clock2 dicts2 doc ft qt bn)"
proof -
  have "vars_agree (parse_init dicts1) (parse_init dicts2)"
    by (simp add: vars_agree_def parse_init_def)
  from parse_loop_agree[OF this, of ft qt bn clock1 0 "iter doc" clock2 0] show ?thesis
    unfolding parse_results_def
    by (cases "parse_loop ft qt bn clock1 0 (parse_init dicts1) (iter doc)";
        cases "parse_loop ft qt bn clock2 0 (parse_init dicts2) (iter doc)")
      (simp_all add: parse_output_def vars_agree_def)
qed

theorem C5_parser_deterministic_witness:
  "map_sum fst parse_output
     (parse_results example_clock dictionaries_init example_doc FlightType_F ORIGIN 1) =
   map_sum fst parse_output
     (parse_results (\<lambda>i. 5000) dictionaries_init example_doc FlightType_F ORIGIN 1) \<and>
   (\<exists>v. parse_results example_clock dictionaries_init example_doc FlightType_F ORIGIN 1 = Inr v \<and>
      row v = 1 \<and> sol_id v = 1 \<and>
      map_option depart_dt (state v) = Some (Some (DtNow (example_clock 6))))"
proof -
  have "\<exists>v. parse_results example_clock dictionaries_init example_doc FlightType_F ORIGIN 1 = Inr v \<and>
      row v = 1 \<and> sol_id v = 1 \<and>
      map_option depart_dt (state v) = Some (Some (DtNow (example_clock 6)))"
    by (simp add: parser_defs example_doc_def example_clock_def)
  with C5_parser_deterministic[of example_clock dictionaries_init example_doc FlightType_F ORIGIN 1
      "\<lambda>i. 5000" dictionaries_init]
  show ?thesis
    by (intro conjI)
qed

subsection \<open>Batches of the planner\<close>

lemma concat_slices_take:
  "concat (map (\<lambda>k. take s (drop (k * s) xs)) [0..<m]) = take (m * s) xs"
proof (induction m)
  case 0
  then show ?case by simp
next
  case (Suc m)
  have "Suc m * s = m * s + s"
    by simp
  then have "take (Suc m * s) xs = take (m * s) xs @ take s (drop (m * s) xs)"
    by (simp only: take_add)
  with Suc show ?case by simp
qed

lemma range_covers: "0 < s \<Longrightarrow> (n::nat) \<le> ((n + s - 1) div s) * s"
proof -
  assume s: "0 < s"
  have "n + s - 1 = ((n + s - 1) div s) * s + (n + s - 1) mod s"
    by simp
  moreover have "(n + s - 1) mod s < s"
    using s by simp
  ultimately show ?thesis
    by linarith
qed

lemma concat_py_range:
  assumes "0 < s"
  shows "concat (map (\<lambda>i. take s (drop i xs)) (py_range (length xs) s)) = xs"
proof -
  have "concat (map (\<lambda>i. take s (drop i xs)) (py_range (length xs) s)) =
      concat (map (\<lambda>k. take s (drop (k * s) xs)) [0..<(length xs + s - 1) div s])"
    by (simp add: py_range_def comp_def)
  also have "\<dots> = take (((length xs + s - 1) div s) * s) xs"
    by (rule concat_slices_take)
  also have "\<dots> = xs"
    using range_covers[OF assms, of "length xs"] by simp
  finally show ?thesis .
qed

lemma batch_list_positive:
  assumes "0 < n" and "batch_list items n = Inr batches"
  shows "concat batches = items" and "\<forall>b \<in> set batches. length b \<le> nat n"
    and "items \<noteq> [] \<Longrightarrow> batches \<noteq> []"
proof -
  from assms have b: "batches = map (\<lambda>i. take (nat n) (drop i items)) (py_range (length items) (nat n))"
    by (simp add: batch_list_def)
  from assms(1) have "0 < nat n"
    by simp
  from concat_py_range[OF this] b show c: "concat batches = items"
    by simp
  from b show "\<forall>b \<in> set batches. length b \<le> nat n"
    by auto
  show "batches \<noteq> []" if "items \<noteq> []"
    using c that by auto
qed

lemma payload_codes_create_base_xml:
  assumes "create_base_xml env ft (map (text_element (primary_element qt)) batch @
             map (text_element (secondary_element qt)) sec) = Inr search"
  shows "payload_codes (primary_element qt) search = map Some batch"
    and "payload_codes (secondary_element qt) search = map Some sec"
proof -
  have f: "filter (\<lambda>c. tag c = t) (map (text_element u) xs) = (if t = u then map (text_element u) xs else [])"
    for t u xs
    by (induction xs) (auto simp: text_element_def)
  have e: "map etext (map (text_element u) xs) = map Some xs" for u xs
    by (simp add: text_element_def comp_def)
  from assms show "payload_codes (primary_element qt) search = map Some batch"
    by (cases qt)
      (auto simp: create_base_xml_def payload_codes_def find_child_def f e
        primary_element_def secondary_element_def text_element_def comp_def
        split: sum.splits)
  from assms show "payload_codes (secondary_element qt) search = map Some sec"
    by (cases qt)
      (auto simp: create_base_xml_def payload_codes_def find_child_def f e
        primary_element_def secondary_element_def text_element_def comp_def
        split: sum.splits)
qed

lemma batched_queries_result:
  assumes "batched_queries env qt ft num batches = Inr queries"
  shows "map (\<lambda>(q, b). payload_codes (primary_element qt) q) queries = map (map Some) batches \<and>
         (\<forall>(q, b) \<in> set queries.
            payload_codes (secondary_element qt) q = map Some (secondary_codes env qt)) \<and>
         map snd queries = map (\<lambda>k. num + int k) [0..<length batches]"
  using assms
proof (induction batches arbitrary: num queries)
  case Nil
  then show ?case by simp
next
  case (Cons b bs)
  from Cons.prems obtain search rest where
    s: "create_base_xml env ft (map (text_element (primary_element qt)) b @
          map (text_element (secondary_element qt)) (secondary_codes env qt)) = Inr search"
    and r: "batched_queries env qt ft (num + 1) bs = Inr rest"
    and q: "queries = (search, num) # rest"
    by (auto split: sum.splits)
  note p = payload_codes_create_base_xml[OF s]
  from Cons.IH[OF r] have
    i1: "map (\<lambda>(q, b). payload_codes (primary_element qt) q) rest = map (map Some) bs"
    and i2: "\<forall>(q, b) \<in> set rest.
            payload_codes (secondary_element qt) q = map Some (secondary_codes env qt)"
    and i3: "map snd rest = map (\<lambda>k. num + 1 + int k) [0..<length bs]"
    by simp_all
  have "map (\<lambda>k. num + int k) [0..<length (b # bs)] =
      num # map (\<lambda>k. num + 1 + int k) [0..<length bs]"
    by (simp add: upt_conv_Cons map_Suc_upt[symmetric] del: upt_Suc)
  with q p i1 i2 i3 show ?case
    by simp
qed

lemma create_base_xml_returns:
  assumes "minConnectionTime env = Inr a" "maxStopCount env = Inr b" "daysAfter env = Inr c"
    "summarizer env = Inr d"
  shows "\<exists>search. create_base_xml env ft codes = Inr search"
  using assms by (simp add: create_base_xml_def)

text \<open>
  C2. With batching enabled and a batch size \<open>N\<close> of at least one, the queries that
  \<open>generate_xml_query_batch\<close> returns are such that every payload holds at most \<open>N\<close> primary
  codes and the whole secondary code list, the primary codes of the payloads, one payload
  after the other, are the primary code list itself, and the batch numbers are
  \<open>1, 2, 3, \<dots>\<close> in order. A non-empty primary list gives at least one payload.
\<close>

theorem C2_batches_partition_primary_codes:
  assumes "0 < N"
    and "generate_xml_query_batch env qt ft True N = Inr queries"
  shows "(\<forall>(q, b) \<in> set queries.
            length (payload_codes (primary_element qt) q) \<le> nat N \<and>
            payload_codes (secondary_element qt) q = map Some (secondary_codes env qt)) \<and>
         concat (map (\<lambda>(q, b). payload_codes (primary_element qt) q) queries) =
           map Some (primary_codes env qt) \<and>
         map snd queries = map int [1..<Suc (length queries)] \<and>
         (primary_codes env qt \<noteq> [] \<longrightarrow> queries \<noteq> [])"
proof -
  from assms obtain batches where
    b: "batch_list (primary_codes env qt) N = Inr batches"
    and q: "batched_queries env qt ft 1 batches = Inr queries"
    by (auto simp: generate_xml_query_batch_def split: sum.splits)
  note bl = batch_list_positive[OF assms(1) b]
  from batched_queries_result[OF q] have
    r1: "map (\<lambda>(q, b). payload_codes (primary_element qt) q) queries = map (map Some) batches"
    and r2: "\<forall>(q, b) \<in> set queries.
            payload_codes (secondary_element qt) q = map Some (secondary_codes env qt)"
    and r3: "map snd queries = map (\<lambda>k. 1 + int k) [0..<length batches]"
    by simp_all
  from r1 have len: "length queries = length batches"
    by (metis length_map)
  have c: "concat (map (\<lambda>(q, b). payload_codes (primary_element qt) q) queries) =
           map Some (primary_codes env qt)"
    unfolding r1 using bl(1) by (simp add: map_concat[symmetric])
  have "\<forall>x \<in> set (map (\<lambda>(q, b). payload_codes (primary_element qt) q) queries). length x \<le> nat N"
    unfolding r1 using bl(2) by auto
  then have l: "\<forall>(q, b) \<in> set queries. length (payload_codes (primary_element qt) q) \<le> nat N"
    by auto
  have "map (\<lambda>k. 1 + int k) [0..<length batches] = map int [1..<Suc (length batches)]"
    by (simp add: map_Suc_upt[symmetric] del: upt_Suc)
  with r3 len have n: "map snd queries = map int [1..<Suc (length queries)]"
    by simp
  have e: "primary_codes env qt \<noteq> [] \<longrightarrow> queries \<noteq> []"
    using bl(3) len by auto
  from l r2 have a: "\<forall>(q, b) \<in> set queries.
            length (payload_codes (primary_element qt) q) \<le> nat N \<and>
            payload_codes (secondary_element qt) q = map Some (secondary_codes env qt)"
    by auto
  from a c n e show ?thesis
    by (intro conjI)
qed

theorem C2_batches_partition_primary_codes_witness:
  "(0::int) < 2 \<and>
   (\<exists>queries. generate_xml_query_batch example_env ORIGIN FlightType_F True 2 = Inr queries \<and>
      map (\<lambda>(q, b). (payload_codes ''origin'' q, b)) queries =
        [([Some ''NBO'', Some ''DXB''], 1), ([Some ''JFK'', Some ''LAX''], 2), ([Some ''ORD''], 3)] \<and>
      (\<forall>(q, b) \<in> set queries.
         length (payload_codes (primary_element ORIGIN) q) \<le> nat 2 \<and>
         payload_codes (secondary_element ORIGIN) q = map Some (secondary_codes example_env ORIGIN)) \<and>
      concat (map (\<lambda>(q, b). payload_codes (primary_element ORIGIN) q) queries) =
        map Some (primary_codes example_env ORIGIN) \<and>
      map snd queries = map int [1..<Suc (length queries)])"
proof -
  have ev: "map_sum id (map (\<lambda>(q, b). (payload_codes ''origin'' q, b)))
      (generate_xml_query_batch example_env ORIGIN FlightType_F True 2) =
    Inr [([Some ''NBO'', Some ''DXB''], 1), ([Some ''JFK'', Some ''LAX''], 2), ([Some ''ORD''], 3)]"
    by code_simp
  then obtain queries where
    q: "generate_xml_query_batch example_env ORIGIN FlightType_F True 2 = Inr queries"
    and p: "map (\<lambda>(q, b). (payload_codes ''origin'' q, b)) queries =
        [([Some ''NBO'', Some ''DXB''], 1), ([Some ''JFK'', Some ''LAX''], 2), ([Some ''ORD''], 3)]"
    by (cases "generate_xml_query_batch example_env ORIGIN FlightType_F True 2") auto
  have n: "(0::int) < 2"
    by simp
  from C2_batches_partition_primary_codes[OF n q] have
    c: "(\<forall>(q, b) \<in> set queries.
         length (payload_codes (primary_element ORIGIN) q) \<le> nat 2 \<and>
         payload_codes (secondary_element ORIGIN) q = map Some (secondary_codes example_env ORIGIN)) \<and>
      concat (map (\<lambda>(q, b). payload_codes (primary_element ORIGIN) q) queries) =
        map Some (primary_codes example_env ORIGIN) \<and>
      map snd queries = map int [1..<Suc (length queries)]"
    by simp
  show ?thesis
    apply (rule conjI)
     apply (rule n)
    apply (rule exI[of _ queries])
    apply (rule conjI)
     apply (rule q)
    apply (rule conjI)
     apply (rule p)
    apply (rule c)
    done
qed

subsection \<open>Inner joins\<close>

lemma set_merge_inner:
  "set (merge_inner lkey rkey left right) =
     {(l, r). l \<in> set left \<and> r \<in> set right \<and> lkey l = rkey r}"
  by (auto simp: merge_inner_def)

lemma length_merge_inner:
  "length (merge_inner lkey rkey left right) =
     sum_list (map (\<lambda>l. length (filter (\<lambda>r. lkey l = rkey r) right)) left)"
  by (simp add: merge_inner_def length_concat comp_def)

lemma matches_distinct:
  assumes "distinct (map rkey right)"
  shows "length (filter (\<lambda>r. k = rkey r) right) = (if k \<in> set (map rkey right) then 1 else 0)"
  using assms
proof (induction right)
  case Nil
  then show ?case by simp
next
  case (Cons r rs)
  then show ?case
    by (auto simp: filter_empty_conv)
qed

lemma length_merge_inner_distinct:
  assumes "distinct (map rkey right)"
  shows "length (merge_inner lkey rkey left right) =
     length (filter (\<lambda>l. lkey l \<in> set (map rkey right)) left)"
proof -
  have "sum_list (map (\<lambda>l. if lkey l \<in> set (map rkey right) then 1 else 0) left) =
      length (filter (\<lambda>l. lkey l \<in> set (map rkey right)) left)"
    by (induction left) auto
  then show ?thesis
    by (simp add: length_merge_inner matches_distinct[OF assms])
qed

lemma length_filter_split:
  "length (filter P xs) + length (filter (\<lambda>x. \<not> P x) xs) = length xs"
  by (induction xs) auto

lemma origin_join_count:
  assumes "distinct (map ap_code (ref_airport refs))"
  shows "length (fst (origin_join flight_data refs)) + length (unmatched_origin_rows flight_data refs) =
           length flight_data"
proof -
  let ?codes = "set (map (Some \<circ> ap_code) (ref_airport refs))"
  from assms have d: "distinct (map (\<lambda>a. Some (ap_code a)) (ref_airport refs))"
    by (simp add: distinct_map inj_on_def)
  have "length (fst (origin_join flight_data refs)) =
      length (filter (\<lambda>l. Origin l \<in> ?codes) (map snd flight_data))"
    using length_merge_inner_distinct[OF d, of Origin "map snd flight_data"]
    by (simp add: origin_join_def Let_def comp_def)
  also have "\<dots> = length (filter (\<lambda>(i, r). Origin r \<in> ?codes) flight_data)"
    by (simp add: filter_map comp_def case_prod_unfold)
  finally have a: "length (fst (origin_join flight_data refs)) =
      length (filter (\<lambda>(i, r). Origin r \<in> ?codes) flight_data)" .
  have "length (unmatched_origin_rows flight_data refs) =
      length (filter (\<lambda>x. \<not> (case x of (i, r) \<Rightarrow> Origin r \<in> ?codes)) flight_data)"
    by (simp add: unmatched_origin_rows_def case_prod_unfold)
  with a length_filter_split[of "\<lambda>(i, r). Origin r \<in> ?codes" flight_data] show ?thesis
    by simp
qed

lemma unmatched_origin_set:
  "set (map (Origin \<circ> snd) flight_data) - set (map (Some \<circ> ap_code) (ref_airport refs)) =
     set (map (Origin \<circ> snd) (unmatched_origin_rows flight_data refs))"
  by (auto simp: unmatched_origin_rows_def)

lemma enrich_rows_from_joins:
  assumes en: "enrich_flight_data date_parse flight_data refs = Inr (rows, warnings)"
    and x: "x \<in> set rows"
  shows "\<exists>r \<in> set (fst (carrier_join
                  (fst (destination_join flight_data (fst (origin_join flight_data refs)) refs))
                  refs)).
           \<exists>dep arr. x = enriched_of r dep arr"
  using en x
  apply (simp add: enrich_flight_data_def Let_def split: prod.splits sum.splits if_splits)
  apply clarsimp
  subgoal for x1 x2 x1a x2a x1b x2b x2c x2d a b ba bb aa bc ab bd
    apply (rule bexI[of _ "(((a, b), ba), bb)"])
     apply (rule exI[of _ aa], rule exI[of _ ab], rule refl)
    apply (erule set_zip_leftD)
    done
  done

text \<open>
  C4. Each of the three joins keeps a row only together with a reference row that has its
  key: a row whose origin (destination, carrier code) is the code of no reference row is not
  in the result, and the legs that the origin join keeps are exactly the legs of the input
  whose origin is an airport code. So every enriched leg that \<open>enrich_flight_data\<close> returns is
  a leg of the input whose three keys are codes of the reference rows attached to it. All
  this holds for every leg table and all reference tables. If moreover no airport code
  occurs in two rows of the airport table and exactly one row of the leg table has an origin
  that is no airport code, the origin join returns one row less than the leg table has, and
  logs the loss of one row and the unknown origin.
\<close>

theorem C4_inner_joins_drop_unmatched:
  "(\<forall>(l, a) \<in> set (fst (origin_join flight_data refs)).
      l \<in> snd ` set flight_data \<and> a \<in> set (ref_airport refs) \<and> Origin l = Some (ap_code a)) \<and>
   fst ` set (fst (origin_join flight_data refs)) =
     {l \<in> snd ` set flight_data. Origin l \<in> set (map (Some \<circ> ap_code) (ref_airport refs))} \<and>
   (\<forall>results. \<forall>(l, a) \<in> set (fst (destination_join flight_data results refs)).
      l \<in> set results \<and> a \<in> set (ref_airport refs) \<and>
      Destination (fst l) = Some (ap_code a)) \<and>
   (\<forall>results. \<forall>(l, c) \<in> set (fst (carrier_join results refs)).
      l \<in> set results \<and> c \<in> set (ref_carrier refs) \<and>
      Airline_Code (fst (fst l)) = Some (cr_code c)) \<and>
   (\<forall>date_parse rows warnings.
      enrich_flight_data date_parse flight_data refs = Inr (rows, warnings) \<longrightarrow>
      (\<forall>e \<in> set rows. leg e \<in> snd ` set flight_data \<and>
         origin_airport e \<in> set (ref_airport refs) \<and>
         Origin (leg e) = Some (ap_code (origin_airport e)) \<and>
         destination_airport e \<in> set (ref_airport refs) \<and>
         Destination (leg e) = Some (ap_code (destination_airport e)) \<and>
         airline e \<in> set (ref_carrier refs) \<and>
         Airline_Code (leg e) = Some (cr_code (airline e)))) \<and>
   (distinct (map ap_code (ref_airport refs)) \<and>
    length (unmatched_origin_rows flight_data refs) = 1 \<longrightarrow>
      length (fst (origin_join flight_data refs)) = length flight_data - 1 \<and>
      snd (origin_join flight_data refs) =
        [Lost_rows ''origin airport'' 1,
         Unknown_sample ''Unknown origins''
           (set (map (Origin \<circ> snd) (unmatched_origin_rows flight_data refs)))])"
proof -
  have j1: "\<forall>(l, a) \<in> set (fst (origin_join flight_data refs)).
      l \<in> snd ` set flight_data \<and> a \<in> set (ref_airport refs) \<and> Origin l = Some (ap_code a)"
    for flight_data
    by (auto simp: origin_join_def Let_def set_merge_inner)
  have k1: "fst ` set (fst (origin_join flight_data refs)) =
     {l \<in> snd ` set flight_data. Origin l \<in> set (map (Some \<circ> ap_code) (ref_airport refs))}"
    by (force simp: origin_join_def Let_def set_merge_inner)
  have j2: "\<forall>(l, a) \<in> set (fst (destination_join flight_data results refs)).
      l \<in> set results \<and> a \<in> set (ref_airport refs) \<and> Destination (fst l) = Some (ap_code a)"
    for results
    by (auto simp: destination_join_def Let_def set_merge_inner)
  have j3: "\<forall>(l, c) \<in> set (fst (carrier_join results refs)).
      l \<in> set results \<and> c \<in> set (ref_carrier refs) \<and> Airline_Code (fst (fst l)) = Some (cr_code c)"
    for results
    by (auto simp: carrier_join_def Let_def set_merge_inner)
  have e: "\<forall>e \<in> set rows. leg e \<in> snd ` set flight_data \<and>
               origin_airport e \<in> set (ref_airport refs) \<and>
               Origin (leg e) = Some (ap_code (origin_airport e)) \<and>
               destination_airport e \<in> set (ref_airport refs) \<and>
               Destination (leg e) = Some (ap_code (destination_airport e)) \<and>
               airline e \<in> set (ref_carrier refs) \<and>
               Airline_Code (leg e) = Some (cr_code (airline e))"
    if en: "enrich_flight_data date_parse flight_data refs = Inr (rows, warnings)"
    for date_parse rows warnings
  proof
    fix x
    assume x: "x \<in> set rows"
    define r1 where "r1 = fst (origin_join flight_data refs)"
    define r2 where "r2 = fst (destination_join flight_data r1 refs)"
    define r3 where "r3 = fst (carrier_join r2 refs)"
    from enrich_rows_from_joins[OF en x]
    obtain r dep arr where r: "r \<in> set r3" and xe: "x = enriched_of r dep arr"
      unfolding r1_def r2_def r3_def by auto
    obtain l o' d c where rr: "r = (((l, o'), d), c)"
      by (metis surj_pair)
    from r rr j3[of r2] have c: "((l, o'), d) \<in> set r2" "c \<in> set (ref_carrier refs)"
      "Airline_Code l = Some (cr_code c)"
      unfolding r3_def by auto
    from c(1) j2[of r1] have d: "(l, o') \<in> set r1" "d \<in> set (ref_airport refs)"
      "Destination l = Some (ap_code d)"
      unfolding r2_def by auto
    from d(1) j1[of flight_data] have o: "l \<in> snd ` set flight_data" "o' \<in> set (ref_airport refs)"
      "Origin l = Some (ap_code o')"
      unfolding r1_def by auto
    from c d o show "leg x \<in> snd ` set flight_data \<and>
               origin_airport x \<in> set (ref_airport refs) \<and>
               Origin (leg x) = Some (ap_code (origin_airport x)) \<and>
               destination_airport x \<in> set (ref_airport refs) \<and>
               Destination (leg x) = Some (ap_code (destination_airport x)) \<and>
               airline x \<in> set (ref_carrier refs) \<and>
               Airline_Code (leg x) = Some (cr_code (airline x))"
      by (simp add: xe rr enriched_of_def)
  qed
  have cnt: "length (fst (origin_join flight_data refs)) = length flight_data - 1 \<and>
      snd (origin_join flight_data refs) =
        [Lost_rows ''origin airport'' 1,
         Unknown_sample ''Unknown origins''
           (set (map (Origin \<circ> snd) (unmatched_origin_rows flight_data refs)))]"
    if dist: "distinct (map ap_code (ref_airport refs))"
      and one: "length (unmatched_origin_rows flight_data refs) = 1"
  proof -
    from origin_join_count[OF dist, of flight_data] one
    have n: "length (fst (origin_join flight_data refs)) = length flight_data - 1"
      and lt: "length (fst (origin_join flight_data refs)) < length flight_data"
      and df: "length flight_data - length (fst (origin_join flight_data refs)) = 1"
      by simp_all
    from one have ne: "set (map (Origin \<circ> snd) (unmatched_origin_rows flight_data refs)) \<noteq> {}"
      by (cases "unmatched_origin_rows flight_data refs") auto
    have "snd (origin_join flight_data refs) =
           [Lost_rows ''origin airport'' 1,
            Unknown_sample ''Unknown origins''
              (set (map (Origin \<circ> snd) (unmatched_origin_rows flight_data refs)))]"
      using lt df ne
      by (simp add: origin_join_def Let_def join_loss_log_def unmatched_origin_set
          del: set_map)
    with n show ?thesis
      by simp
  qed
  show ?thesis
    apply (intro conjI)
         apply (rule j1)
        apply (rule k1)
       apply (intro allI, rule j2)
      apply (intro allI, rule j3)
     apply (intro allI impI, erule e)
    apply (intro impI, erule conjE, erule (1) cnt)
    done
qed

lemmas example_table_defs = example_legs_def example_leg_def example_refs_def
  example_refs_dup_def example_airport_def

theorem C4_inner_joins_drop_unmatched_witness:
  "distinct (map ap_code (ref_airport example_refs)) \<and>
   length (unmatched_origin_rows example_legs example_refs) = 1 \<and>
   length example_legs = 2 \<and>
   length (fst (origin_join example_legs example_refs)) = 1 \<and>
   fst ` set (fst (origin_join example_legs example_refs)) = {example_leg ''JFK'' ''LHR'' 1} \<and>
   snd (origin_join example_legs example_refs) =
     [Lost_rows ''origin airport'' 1, Unknown_sample ''Unknown origins'' {Some ''XXX''}]"
proof -
  have d: "distinct (map ap_code (ref_airport example_refs))"
    by (simp add: example_table_defs)
  have u: "unmatched_origin_rows example_legs example_refs = [(1, example_leg ''XXX'' ''LHR'' 2)]"
    by (simp add: example_table_defs unmatched_origin_rows_def)
  then have one: "length (unmatched_origin_rows example_legs example_refs) = 1"
    by simp
  have l: "length example_legs = 2"
    by (simp add: example_legs_def)
  note c4 = C4_inner_joins_drop_unmatched[of example_legs example_refs]
  from c4 d one have
    n: "length (fst (origin_join example_legs example_refs)) = length example_legs - 1"
    and g: "snd (origin_join example_legs example_refs) =
           [Lost_rows ''origin airport'' 1,
            Unknown_sample ''Unknown origins''
              (set (map (Origin \<circ> snd) (unmatched_origin_rows example_legs example_refs)))]"
    by blast+
  from c4 have "fst ` set (fst (origin_join example_legs example_refs)) =
     {l \<in> snd ` set example_legs.
        Origin l \<in> set (map (Some \<circ> ap_code) (ref_airport example_refs))}"
    by blast
  also have "\<dots> = {example_leg ''JFK'' ''LHR'' 1}"
    by (auto simp: example_table_defs)
  finally have k: "fst ` set (fst (origin_join example_legs example_refs)) =
      {example_leg ''JFK'' ''LHR'' 1}" .
  from n l have n': "length (fst (origin_join example_legs example_refs)) = 1"
    by simp
  from g have g': "snd (origin_join example_legs example_refs) =
     [Lost_rows ''origin airport'' 1, Unknown_sample ''Unknown origins'' {Some ''XXX''}]"
    by (simp add: u example_leg_def)
  from d one l n' k g' show ?thesis
    by (intro conjI)
qed

theorem C4_duplicate_airport_code_counterexample:
  "length (unmatched_origin_rows example_legs example_refs_dup) = 1 \<and>
   length example_legs = 2 \<and>
   length (fst (origin_join example_legs example_refs_dup)) = 2 \<and>
   snd (origin_join example_legs example_refs_dup) = []"
  by (simp add: example_table_defs unmatched_origin_rows_def origin_join_def merge_inner_def
      join_loss_log_def Let_def)

subsection \<open>The fold\<close>

lemma apply_raising_set:
  "apply_raising f xs = Inr ys \<Longrightarrow> y \<in> set ys \<Longrightarrow> \<exists>x \<in> set xs. f x = Inr y"
  by (induction xs arbitrary: ys) (auto split: sum.splits)

lemma apply_raising_length_eq:
  "apply_raising f xs = Inr ys \<Longrightarrow> length ys = length xs"
  by (induction xs arbitrary: ys) (auto split: sum.splits)

lemma groupby_solution_id_group:
  assumes "(k, g) \<in> set (groupby_solution_id flight_data)"
  shows "g = filter (\<lambda>r. Solution_ID (leg r) = k) flight_data" and "g \<noteq> []"
    and "\<forall>l \<in> set g. Solution_ID (leg l) = k"
proof -
  from assms show g: "g = filter (\<lambda>r. Solution_ID (leg r) = k) flight_data"
    by (auto simp: groupby_solution_id_def)
  from assms have "k \<in> set (map (Solution_ID \<circ> leg) flight_data)"
    by (auto simp: groupby_solution_id_def)
  with g show "g \<noteq> []"
    by (auto simp: filter_empty_conv)
  from g show "\<forall>l \<in> set g. Solution_ID (leg l) = k"
    by simp
qed

lemma agg_group_via:
  assumes "agg_group g = Inr r"
  shows "it_Via_IATA r = pd_first (map (Destination \<circ> leg) g) \<and>
         it_Destination_IATA r = pd_last (map (Destination \<circ> leg) g)"
  using assms by (cases g) (auto simp: Let_def split: sum.splits)

lemma add_countries_via:
  assumes "r' \<in> set (fst (add_countries cleaned refs))"
  shows "\<exists>r \<in> set cleaned. it_Via_IATA r' = it_Via_IATA r \<and>
           it_Destination_IATA r' = it_Destination_IATA r"
  using assms
  by (cases "ref_countries refs") (auto simp: add_countries_def merge_inner_def)

lemma join_flights_via:
  assumes "join_flights r = Inr r'"
  shows "it_Via_IATA r' = it_Via_IATA r \<and> it_Destination_IATA r' = it_Destination_IATA r"
  using assms by (auto simp: join_flights_def split: sum.splits)

lemma pd_first_last_total:
  assumes "xs \<noteq> []" and "\<forall>x \<in> set xs. x \<noteq> None"
  shows "pd_first xs = hd xs" and "pd_last xs = last xs"
proof -
  from assms(2) have f: "filter (\<lambda>x. x \<noteq> None) xs = xs"
    by (simp add: filter_id_conv)
  from assms(1) show "pd_first xs = hd xs"
    unfolding pd_first_def f by (cases xs) simp_all
  from assms(1) have r: "rev xs = last xs # rev (butlast xs)"
    by (induction xs rule: rev_induct) simp_all
  show "pd_last xs = last xs"
    unfolding pd_last_def f r by simp
qed

lemma pd_first_last_single: "pd_first [x] = pd_last [x]"
  by (simp add: pd_first_def pd_last_def)

text \<open>
  C3. Every row that \<open>transform_flight_structure\<close> returns comes from one itinerary group of
  its input. Its final destination code is the last destination of the group, and its via
  code is null if the first destination of the group equals the last one, and is the first
  destination otherwise (first and last among the values that are not null, which for a
  group without null destinations are those of the first and of the last leg). For a group of
  one leg the via code is null.
\<close>

theorem C3_via_suppressed_iff_equals_final_destination:
  assumes "transform_flight_structure flight_data refs = Inr (cleaned, warnings)"
    and "r \<in> set cleaned"
  shows "\<exists>k g. (k, g) \<in> set (groupby_solution_id flight_data) \<and> g \<noteq> [] \<and>
           g = filter (\<lambda>l. Solution_ID (leg l) = k) flight_data \<and>
           it_Destination_IATA r = pd_last (map (Destination \<circ> leg) g) \<and>
           it_Via_IATA r =
             (if pd_first (map (Destination \<circ> leg) g) = pd_last (map (Destination \<circ> leg) g)
              then None else pd_first (map (Destination \<circ> leg) g)) \<and>
           ((\<forall>l \<in> set g. Destination (leg l) \<noteq> None) \<longrightarrow>
              pd_first (map (Destination \<circ> leg) g) = Destination (leg (hd g)) \<and>
              pd_last (map (Destination \<circ> leg) g) = Destination (leg (last g))) \<and>
           (length g = 1 \<longrightarrow> it_Via_IATA r = None)"
proof -
  from assms(1) obtain c1 where
    c1: "apply_raising agg_group (map snd (groupby_solution_id flight_data)) = Inr c1"
    and c3: "apply_raising join_flights (map fix_via (fst (add_countries c1 refs))) = Inr cleaned"
    by (auto simp: transform_flight_structure_def Let_def split: sum.splits prod.splits)
  from apply_raising_set[OF c3 assms(2)] obtain r2 where
    r2: "r2 \<in> set (fst (add_countries c1 refs))" and j: "join_flights (fix_via r2) = Inr r"
    by auto
  from add_countries_via[OF r2] obtain r1 where
    r1: "r1 \<in> set c1" and e1: "it_Via_IATA r2 = it_Via_IATA r1"
    "it_Destination_IATA r2 = it_Destination_IATA r1"
    by auto
  from apply_raising_set[OF c1 r1] obtain k g where
    kg: "(k, g) \<in> set (groupby_solution_id flight_data)" and a: "agg_group g = Inr r1"
    by auto
  let ?d = "map (Destination \<circ> leg) g"
  note grp = groupby_solution_id_group[OF kg]
  from agg_group_via[OF a] e1 have v2: "it_Via_IATA r2 = pd_first ?d"
    "it_Destination_IATA r2 = pd_last ?d"
    by simp_all
  from join_flights_via[OF j] v2 have
    d: "it_Destination_IATA r = pd_last ?d"
    and v: "it_Via_IATA r = (if pd_first ?d = pd_last ?d then None else pd_first ?d)"
    by (simp_all add: fix_via_def)
  have t: "(\<forall>l \<in> set g. Destination (leg l) \<noteq> None) \<longrightarrow>
      pd_first ?d = Destination (leg (hd g)) \<and> pd_last ?d = Destination (leg (last g))"
  proof
    assume n: "\<forall>l \<in> set g. Destination (leg l) \<noteq> None"
    with grp(2) have "?d \<noteq> []" "\<forall>x \<in> set ?d. x \<noteq> None"
      by auto
    from pd_first_last_total[OF this] grp(2)
    show "pd_first ?d = Destination (leg (hd g)) \<and> pd_last ?d = Destination (leg (last g))"
      by (simp add: hd_map last_map)
  qed
  have s: "length g = 1 \<longrightarrow> it_Via_IATA r = None"
  proof
    assume "length g = 1"
    then obtain x where "g = [x]"
      by (cases g) auto
    with v show "it_Via_IATA r = None"
      by (simp add: pd_first_last_single)
  qed
  show ?thesis
    apply (rule exI[of _ k], rule exI[of _ g])
    apply (intro conjI)
          apply (rule kg)
         apply (rule grp(2))
        apply (rule grp(1))
       apply (rule d)
      apply (rule v)
     apply (rule t)
    apply (rule s)
    done
qed

theorem C3_via_suppressed_iff_equals_final_destination_witness:
  "\<exists>cleaned warnings.
     transform_flight_structure example_enriched example_refs = Inr (cleaned, warnings) \<and>
     map (\<lambda>r. (it_Via_IATA r, it_Destination_IATA r, it_Num_Stops r)) cleaned =
       [(Some ''LHR'', Some ''NBO'', 2), (None, Some ''LHR'', 1)] \<and>
     (\<forall>r \<in> set cleaned. \<exists>k g. (k, g) \<in> set (groupby_solution_id example_enriched) \<and>
        it_Via_IATA r =
          (if pd_first (map (Destination \<circ> leg) g) = pd_last (map (Destination \<circ> leg) g)
           then None else pd_first (map (Destination \<circ> leg) g)) \<and>
        (length g = 1 \<longrightarrow> it_Via_IATA r = None))"
proof -
  have ev: "map_sum id (map (\<lambda>r. (it_Via_IATA r, it_Destination_IATA r, it_Num_Stops r)) \<circ> fst)
      (transform_flight_structure example_enriched example_refs) =
    Inr [(Some ''LHR'', Some ''NBO'', 2), (None, Some ''LHR'', 1)]"
    by code_simp
  then obtain cleaned warnings where
    t: "transform_flight_structure example_enriched example_refs = Inr (cleaned, warnings)"
    and m: "map (\<lambda>r. (it_Via_IATA r, it_Destination_IATA r, it_Num_Stops r)) cleaned =
       [(Some ''LHR'', Some ''NBO'', 2), (None, Some ''LHR'', 1)]"
    by (cases "transform_flight_structure example_enriched example_refs") auto
  have a: "\<forall>r \<in> set cleaned. \<exists>k g. (k, g) \<in> set (groupby_solution_id example_enriched) \<and>
        it_Via_IATA r =
          (if pd_first (map (Destination \<circ> leg) g) = pd_last (map (Destination \<circ> leg) g)
           then None else pd_first (map (Destination \<circ> leg) g)) \<and>
        (length g = 1 \<longrightarrow> it_Via_IATA r = None)"
  proof
    fix r
    assume "r \<in> set cleaned"
    from C3_via_suppressed_iff_equals_final_destination[OF t this]
    show "\<exists>k g. (k, g) \<in> set (groupby_solution_id example_enriched) \<and>
        it_Via_IATA r =
          (if pd_first (map (Destination \<circ> leg) g) = pd_last (map (Destination \<circ> leg) g)
           then None else pd_first (map (Destination \<circ> leg) g)) \<and>
        (length g = 1 \<longrightarrow> it_Via_IATA r = None)"
      by blast
  qed
  show ?thesis
    apply (rule exI[of _ cleaned], rule exI[of _ warnings])
    apply (intro conjI)
      apply (rule t)
     apply (rule m)
    apply (rule a)
    done
qed

subsection \<open>Rounding\<close>

lemma round_half_even_error: "\<bar>of_int (round_half_even r) - r\<bar> \<le> 1 / 2"
proof -
  have "of_int \<lfloor>r\<rfloor> \<le> r" "r < of_int \<lfloor>r\<rfloor> + 1"
    by linarith+
  then show ?thesis
    by (auto simp: round_half_even_def Let_def)
qed

lemma pow2_powi: "pow2 e = 2 powi e"
  by (simp add: pow2_def power_int_def power_one_over inverse_eq_divide)

lemma pow2_pos: "0 < pow2 e"
  by (simp add: pow2_powi)

lemma ulp_exponent_lower:
  assumes "q \<noteq> 0"
  shows "2 ^ 52 * pow2 (ulp_exponent q) \<le> \<bar>q\<bar>"
proof -
  obtain a b where ab: "quotient_of \<bar>q\<bar> = (a, b)"
    by (cases "quotient_of \<bar>q\<bar>")
  then have b: "0 < b" and q: "\<bar>q\<bar> = of_int a / of_int b"
    by (auto simp: quotient_of_denom_pos quotient_of_div)
  from assms have "0 < \<bar>q\<bar>"
    by simp
  with q b have a: "0 < a"
    by (simp add: zero_less_divide_iff)
  define e where "e = bitlen a - bitlen b - 53"
  show ?thesis
  proof (cases "2 ^ 53 \<le> \<bar>q\<bar> / pow2 e")
    case True
    then have u: "ulp_exponent q = e + 1"
      by (simp add: ulp_exponent_def ab e_def Let_def)
    from True pow2_pos[of e] have "2 ^ 53 * pow2 e \<le> \<bar>q\<bar>"
      by (simp add: pos_le_divide_eq)
    moreover have "pow2 (e + 1) = 2 * pow2 e"
      by (simp add: pow2_powi power_int_add)
    ultimately show ?thesis
      by (simp add: u)
  next
    case False
    then have u: "ulp_exponent q = e"
      by (simp add: ulp_exponent_def ab e_def Let_def)
    from bitlen_bounds[OF a] have "2 ^ nat (bitlen a - 1) \<le> a"
      by simp
    then have "(of_int (2 ^ nat (bitlen a - 1)) :: rat) \<le> of_int a"
      by (simp only: of_int_le_iff)
    moreover from a have "1 \<le> bitlen a"
      by (simp add: bitlen_alt_def)
    ultimately have la: "(2::rat) powi (bitlen a - 1) \<le> of_int a"
      by (simp add: power_int_def)
    from bitlen_bounds[OF b] have "b < 2 ^ nat (bitlen b)"
      by simp
    then have "(of_int b :: rat) < of_int (2 ^ nat (bitlen b))"
      by (simp only: of_int_less_iff)
    then have lb: "(of_int b :: rat) \<le> 2 powi (bitlen b)"
      using bitlen_nonneg[of b] by (simp add: power_int_def)
    have "(2::rat) ^ 52 * pow2 e = 2 powi (bitlen a - 1) / 2 powi (bitlen b)"
      by (simp add: pow2_powi e_def power_int_diff power_int_add field_simps)
    also have "\<dots> \<le> of_int a / 2 powi (bitlen b)"
      using la by (simp add: divide_right_mono)
    also have "\<dots> \<le> of_int a / of_int b"
      using lb a b by (simp add: divide_left_mono)
    finally show ?thesis
      by (simp add: u q)
  qed
qed

lemma nearest_double_error: "\<bar>nearest_double q - q\<bar> \<le> \<bar>q\<bar> / 2 ^ 53"
proof (cases "q = 0")
  case True
  then show ?thesis
    by (simp add: nearest_double_def)
next
  case False
  define p where "p = pow2 (ulp_exponent q)"
  have p: "0 < p"
    by (simp add: p_def pow2_pos)
  have "nearest_double q - q = (of_int (round_half_even (q / p)) - q / p) * p"
    using False p by (simp add: nearest_double_def p_def field_simps)
  then have "\<bar>nearest_double q - q\<bar> = \<bar>of_int (round_half_even (q / p)) - q / p\<bar> * p"
    using p by (simp add: abs_mult)
  also have "\<dots> \<le> (1 / 2) * p"
    using round_half_even_error[of "q / p"] p by (intro mult_right_mono) simp_all
  also have "\<dots> \<le> \<bar>q\<bar> / 2 ^ 53"
    using ulp_exponent_lower[OF False] by (simp add: p_def field_simps)
  finally show ?thesis .
qed

lemma example_duration: "py_round (py_truediv (total_seconds 12600) (60 ^ 2)) 2 = 7 / 2"
  by code_simp

text \<open>
  C8. \<open>calculate_flight_metrics\<close> gives every itinerary row one final row. Its \<open>Duration DT\<close>
  is the final arrival minus the first departure, in seconds. Its \<open>duration\<close> is
  \<open>round(Duration DT / 3600, 2)\<close> in floats: the float nearest to a number \<open>n / 100\<close> of two
  decimals that lies within \<open>0.005\<close> of the float quotient, which itself differs from the
  exact quotient by at most its \<open>2 ^ 53\<close>-th part. When the arrival is three and a half hours
  after the departure, as 2024-01-01T13:30:00 is after 2024-01-01T10:00:00, the duration is
  \<open>3.5\<close>.
\<close>

theorem C8_duration_seconds_and_hours:
  assumes "m \<in> set (fst (calculate_flight_metrics now_text columns flight_data))"
  shows "map folded (fst (calculate_flight_metrics now_text columns flight_data)) = flight_data \<and>
         Duration_DT m = of_int (it_Arrival_DT (folded m) - it_Departure_DT (folded m)) \<and>
         duration m = py_round (py_truediv (Duration_DT m) 3600) 2 \<and>
         (\<exists>n::int. duration m = nearest_double (of_int n / 100) \<and>
            \<bar>of_int n / 100 - py_truediv (Duration_DT m) 3600\<bar> \<le> 1 / 200) \<and>
         \<bar>py_truediv (Duration_DT m) 3600 - Duration_DT m / 3600\<bar> \<le>
           \<bar>Duration_DT m / 3600\<bar> / 2 ^ 53 \<and>
         (it_Arrival_DT (folded m) - it_Departure_DT (folded m) = 12600 \<longrightarrow> duration m = 7 / 2)"
proof -
  have f: "map folded (fst (calculate_flight_metrics now_text columns flight_data)) = flight_data"
    by (simp add: calculate_flight_metrics_def comp_def)
  from assms have d: "Duration_DT m = of_int (it_Arrival_DT (folded m) - it_Departure_DT (folded m))"
    and h: "duration m = py_round (py_truediv (Duration_DT m) 3600) 2"
    by (auto simp: calculate_flight_metrics_def total_seconds_def)
  define x where "x = py_truediv (Duration_DT m) 3600"
  define n where "n = round_half_even (x * 100)"
  have "\<bar>of_int n - x * 100\<bar> \<le> 1 / 2"
    unfolding n_def by (rule round_half_even_error)
  then have "\<bar>(of_int n - x * 100) / 100\<bar> \<le> (1 / 2) / 100"
    by (simp only: abs_divide) (simp add: divide_right_mono)
  then have b: "\<bar>of_int n / 100 - x\<bar> \<le> 1 / 200"
    by (simp add: diff_divide_distrib)
  have "duration m = nearest_double (of_int n / 100)"
    by (simp add: h py_round_def n_def x_def)
  with b have e: "\<exists>n::int. duration m = nearest_double (of_int n / 100) \<and>
            \<bar>of_int n / 100 - py_truediv (Duration_DT m) 3600\<bar> \<le> 1 / 200"
    unfolding x_def by blast
  have q: "\<bar>py_truediv (Duration_DT m) 3600 - Duration_DT m / 3600\<bar> \<le>
           \<bar>Duration_DT m / 3600\<bar> / 2 ^ 53"
    unfolding py_truediv_def by (rule nearest_double_error)
  have x: "it_Arrival_DT (folded m) - it_Departure_DT (folded m) = 12600 \<longrightarrow> duration m = 7 / 2"
  proof
    assume "it_Arrival_DT (folded m) - it_Departure_DT (folded m) = 12600"
    with d have "Duration_DT m = total_seconds 12600"
      by (simp add: total_seconds_def)
    with h example_duration show "duration m = 7 / 2"
      by simp
  qed
  from f d h e q x show ?thesis
    by (intro conjI)
qed

theorem C8_duration_seconds_and_hours_witness:
  "fst (calculate_flight_metrics ''2024-01-02 00:00:00'' [] [example_itinerary 1704103200 1704115800]) =
     [\<lparr>folded = example_itinerary 1704103200 1704115800, Duration_DT = 12600, duration = 7 / 2,
       Updated = ''2024-01-02 00:00:00''\<rparr>]"
proof -
  let ?m = "\<lparr>folded = example_itinerary 1704103200 1704115800,
      Duration_DT = total_seconds (1704115800 - 1704103200),
      duration = py_round (py_truediv (total_seconds (1704115800 - 1704103200)) (60 ^ 2)) 2,
      Updated = ''2024-01-02 00:00:00''\<rparr>"
  have r: "fst (calculate_flight_metrics ''2024-01-02 00:00:00'' []
      [example_itinerary 1704103200 1704115800]) = [?m]"
    by (simp add: calculate_flight_metrics_def example_itinerary_def)
  then have "?m \<in> set (fst (calculate_flight_metrics ''2024-01-02 00:00:00'' []
      [example_itinerary 1704103200 1704115800]))"
    by simp
  from C8_duration_seconds_and_hours[OF this]
  have "it_Arrival_DT (folded ?m) - it_Departure_DT (folded ?m) = 12600 \<longrightarrow> duration ?m = 7 / 2"
    by blast
  then have dur: "py_round (py_truediv 12600 3600) 2 = 7 / 2"
    by (simp add: example_itinerary_def total_seconds_def)
  show ?thesis
    by (simp add: calculate_flight_metrics_def total_seconds_def example_itinerary_def dur)
qed

end
